theory Spec2Isabelle
  imports Complex_Main
begin

section \<open>JavaScript values with object identity\<close>

text \<open>
  The service of \<^verbatim>\<open>moviesService.ts\<close> builds its records with object literals, the
  spread operator and \<^verbatim>\<open>structuredClone\<close>. A value is a tree; every object carries the
  address it was allocated at, so that a shallow copy (which keeps the nested objects) and
  a deep copy (which allocates every object anew) are different values. Numbers are opaque
  payload: the service does no arithmetic. A plain object is the list of its own
  properties in insertion order, one entry per name (names that look like array indices,
  which JavaScript lists first, are not treated apart: nothing below depends on the order).

  Beside plain objects, arrays and Dates there are the objects that the document client
  hands out or holds: a Firestore \<^verbatim>\<open>Timestamp\<close> (seconds and nanoseconds), a
  \<^verbatim>\<open>DocumentReference\<close> (its path and the Firestore instance it belongs to, which it
  exposes as \<^verbatim>\<open>firestore\<close>), an instance of any other class (class name and own
  properties) and a function.
\<close>

type_synonym addr = nat

datatype jsval =
    JUndefined
  | JNull
  | JBool bool
  | JNum rat
  | JStr string
  | JDate addr int
  | JArr addr "jsval list"
  | JObj addr "(string \<times> jsval) list"
  | JTimestamp addr int int
  | JDocRef addr string jsval
  | JInst addr string "(string \<times> jsval) list"
  | JFun addr

type_synonym props = "(string \<times> jsval) list"

text \<open>The truth value of \<^verbatim>\<open>!v\<close> is \<open>\<not> truthy v\<close>: every object is truthy.\<close>

fun truthy :: "jsval \<Rightarrow> bool" where
  "truthy JUndefined = False"
| "truthy JNull = False"
| "truthy (JBool b) = b"
| "truthy (JNum r) = (r \<noteq> 0)"
| "truthy (JStr s) = (s \<noteq> [])"
| "truthy v = True"

text \<open>
  Defining a property: an existing name keeps its position and takes the new value,
  a new name is added at the end. (The same lists, with stored values, are the fields of
  a document.)
\<close>

fun set_prop :: "string \<Rightarrow> 'v \<Rightarrow> (string \<times> 'v) list \<Rightarrow> (string \<times> 'v) list" where
  "set_prop k v [] = [(k, v)]"
| "set_prop k v ((k', v') # ps) =
     (if k' = k then (k, v) # ps else (k', v') # set_prop k v ps)"

text \<open>
  \<^verbatim>\<open>{ ...target, ...src }\<close>: the properties of \<open>src\<close> are defined on the object
  under construction one after the other, so a later one overrides an earlier one of the
  same name.
\<close>

definition spread_into :: "(string \<times> 'v) list \<Rightarrow> (string \<times> 'v) list \<Rightarrow> (string \<times> 'v) list" where
  "spread_into src target = foldl (\<lambda>acc kv. set_prop (fst kv) (snd kv) acc) target src"

text \<open>
  Reading an own property of a plain object: \<^verbatim>\<open>undefined\<close> when the name is absent.
  (It is used on the records of the service only, which are plain objects.)
\<close>

fun get_prop :: "string \<Rightarrow> jsval \<Rightarrow> jsval" where
  "get_prop k (JObj a ps) = (case map_of ps k of Some v \<Rightarrow> v | None \<Rightarrow> JUndefined)"
| "get_prop k v = JUndefined"

fun props_of :: "jsval \<Rightarrow> props" where
  "props_of (JObj a ps) = ps"
| "props_of v = []"

text \<open>
  \<^verbatim>\<open>obj.k = v\<close> on a plain object. The service assigns only to the object that
  \<^verbatim>\<open>getMovieById\<close> resolved to, which is always a plain object; the other equation
  is there for totality.
\<close>

fun assign :: "string \<Rightarrow> jsval \<Rightarrow> jsval \<Rightarrow> jsval" where
  "assign k v (JObj a ps) = JObj a (set_prop k v ps)"
| "assign k v other = other"

text \<open>
  The structured clone algorithm: every object of the value is allocated anew, in
  pre-order, from the first free address \<open>n\<close>; the result is the copy and the next free
  address. A Date stays a Date; an instance of a class (a Timestamp, a DocumentReference,
  any other) is copied as a plain object with its own properties, the class is lost; a
  function cannot be cloned, and then there is no copy at all (\<open>None\<close>: the
  \<^verbatim>\<open>DataCloneError\<close>).
\<close>

fun clone :: "addr \<Rightarrow> jsval \<Rightarrow> (jsval \<times> addr) option"
  and clone_list :: "addr \<Rightarrow> jsval list \<Rightarrow> (jsval list \<times> addr) option"
  and clone_props :: "addr \<Rightarrow> props \<Rightarrow> (props \<times> addr) option" where
  "clone n JUndefined = Some (JUndefined, n)"
| "clone n JNull = Some (JNull, n)"
| "clone n (JBool b) = Some (JBool b, n)"
| "clone n (JNum r) = Some (JNum r, n)"
| "clone n (JStr s) = Some (JStr s, n)"
| "clone n (JDate a t) = Some (JDate n t, Suc n)"
| "clone n (JArr a xs) =
     (case clone_list (Suc n) xs of None \<Rightarrow> None | Some (ys, n') \<Rightarrow> Some (JArr n ys, n'))"
| "clone n (JObj a ps) =
     (case clone_props (Suc n) ps of None \<Rightarrow> None | Some (qs, n') \<Rightarrow> Some (JObj n qs, n'))"
| "clone n (JTimestamp a s ns) =
     Some (JObj n [(''_seconds'', JNum (of_int s)), (''_nanoseconds'', JNum (of_int ns))], Suc n)"
| "clone n (JDocRef a p c) =
     (case clone (Suc n) c of
        None \<Rightarrow> None
      | Some (c', n') \<Rightarrow> Some (JObj n [(''_firestore'', c'), (''_path'', JStr p)], n'))"
| "clone n (JInst a cls ps) =
     (case clone_props (Suc n) ps of None \<Rightarrow> None | Some (qs, n') \<Rightarrow> Some (JObj n qs, n'))"
| "clone n (JFun a) = None"
| "clone_list n [] = Some ([], n)"
| "clone_list n (x # xs) =
     (case clone n x of
        None \<Rightarrow> None
      | Some (y, n1) \<Rightarrow>
          (case clone_list n1 xs of None \<Rightarrow> None | Some (ys, n2) \<Rightarrow> Some (y # ys, n2)))"
| "clone_props n [] = Some ([], n)"
| "clone_props n (kv # ps) =
     (case clone n (snd kv) of
        None \<Rightarrow> None
      | Some (y, n1) \<Rightarrow>
          (case clone_props n1 ps of
             None \<Rightarrow> None
           | Some (qs, n2) \<Rightarrow> Some ((fst kv, y) # qs, n2)))"

text \<open>The addresses of the objects a value consists of.\<close>

fun addrs :: "jsval \<Rightarrow> addr set"
  and addrs_list :: "jsval list \<Rightarrow> addr set"
  and addrs_props :: "props \<Rightarrow> addr set" where
  "addrs JUndefined = {}"
| "addrs JNull = {}"
| "addrs (JBool b) = {}"
| "addrs (JNum r) = {}"
| "addrs (JStr s) = {}"
| "addrs (JDate a t) = {a}"
| "addrs (JArr a xs) = insert a (addrs_list xs)"
| "addrs (JObj a ps) = insert a (addrs_props ps)"
| "addrs (JTimestamp a s ns) = {a}"
| "addrs (JDocRef a p c) = insert a (addrs c)"
| "addrs (JInst a cls ps) = insert a (addrs_props ps)"
| "addrs (JFun a) = {a}"
| "addrs_list [] = {}"
| "addrs_list (x # xs) = addrs x \<union> addrs_list xs"
| "addrs_props [] = {}"
| "addrs_props (kv # ps) = addrs (snd kv) \<union> addrs_props ps"

text \<open>
  The content of a value as plain data, whatever the addresses and the classes of its
  objects: every address is replaced by 0 and every instance by the plain object of its
  own properties, as the structured clone algorithm reads it. Two values with the same
  \<open>content\<close> have the same shape, property names and primitive values.
\<close>

fun content :: "jsval \<Rightarrow> jsval"
  and content_list :: "jsval list \<Rightarrow> jsval list"
  and content_props :: "props \<Rightarrow> props" where
  "content JUndefined = JUndefined"
| "content JNull = JNull"
| "content (JBool b) = JBool b"
| "content (JNum r) = JNum r"
| "content (JStr s) = JStr s"
| "content (JDate a t) = JDate 0 t"
| "content (JArr a xs) = JArr 0 (content_list xs)"
| "content (JObj a ps) = JObj 0 (content_props ps)"
| "content (JTimestamp a s ns) =
     JObj 0 [(''_seconds'', JNum (of_int s)), (''_nanoseconds'', JNum (of_int ns))]"
| "content (JDocRef a p c) = JObj 0 [(''_firestore'', content c), (''_path'', JStr p)]"
| "content (JInst a cls ps) = JObj 0 (content_props ps)"
| "content (JFun a) = JFun 0"
| "content_list [] = []"
| "content_list (x # xs) = content x # content_list xs"
| "content_props [] = []"
| "content_props (kv # ps) = (fst kv, content (snd kv)) # content_props ps"

text \<open>
  Plain data that the store accepts: no \<^verbatim>\<open>undefined\<close>, no function and no instance of a
  class. The clone of such a value exists and is such a value again.
\<close>

fun plain_data :: "jsval \<Rightarrow> bool"
  and plain_data_list :: "jsval list \<Rightarrow> bool"
  and plain_data_props :: "props \<Rightarrow> bool" where
  "plain_data JUndefined = False"
| "plain_data JNull = True"
| "plain_data (JBool b) = True"
| "plain_data (JNum r) = True"
| "plain_data (JStr s) = True"
| "plain_data (JDate a t) = True"
| "plain_data (JArr a xs) = plain_data_list xs"
| "plain_data (JObj a ps) = plain_data_props ps"
| "plain_data (JTimestamp a s ns) = False"
| "plain_data (JDocRef a p c) = False"
| "plain_data (JInst a cls ps) = False"
| "plain_data (JFun a) = False"
| "plain_data_list [] = True"
| "plain_data_list (x # xs) = (plain_data x \<and> plain_data_list xs)"
| "plain_data_props [] = True"
| "plain_data_props (kv # ps) = (plain_data (snd kv) \<and> plain_data_props ps)"

text \<open>A value that the structured clone algorithm can copy: it holds no function.\<close>

fun cloneable :: "jsval \<Rightarrow> bool"
  and cloneable_list :: "jsval list \<Rightarrow> bool"
  and cloneable_props :: "props \<Rightarrow> bool" where
  "cloneable JUndefined = True"
| "cloneable JNull = True"
| "cloneable (JBool b) = True"
| "cloneable (JNum r) = True"
| "cloneable (JStr s) = True"
| "cloneable (JDate a t) = True"
| "cloneable (JArr a xs) = cloneable_list xs"
| "cloneable (JObj a ps) = cloneable_props ps"
| "cloneable (JTimestamp a s ns) = True"
| "cloneable (JDocRef a p c) = cloneable c"
| "cloneable (JInst a cls ps) = cloneable_props ps"
| "cloneable (JFun a) = False"
| "cloneable_list [] = True"
| "cloneable_list (x # xs) = (cloneable x \<and> cloneable_list xs)"
| "cloneable_props [] = True"
| "cloneable_props (kv # ps) = (cloneable (snd kv) \<and> cloneable_props ps)"

section \<open>The document store\<close>

text \<open>
  What the store keeps of a document is data, not objects: the values of the store
  (null, booleans, numbers, strings, timestamps, references to documents, arrays and
  maps; the other kinds of stored value are left out).
\<close>

datatype fsval =
    FNull
  | FBool bool
  | FNum rat
  | FStr string
  | FTimestamp int int
  | FRef string
  | FArr "fsval list"
  | FMap "(string \<times> fsval) list"

type_synonym fields = "(string \<times> fsval) list"

text \<open>Stored data without a reference to a document, at any depth.\<close>

fun ref_free :: "fsval \<Rightarrow> bool"
  and ref_free_list :: "fsval list \<Rightarrow> bool"
  and ref_free_fields :: "fields \<Rightarrow> bool" where
  "ref_free FNull = True"
| "ref_free (FBool b) = True"
| "ref_free (FNum r) = True"
| "ref_free (FStr s) = True"
| "ref_free (FTimestamp s ns) = True"
| "ref_free (FRef p) = False"
| "ref_free (FArr xs) = ref_free_list xs"
| "ref_free (FMap fs) = ref_free_fields fs"
| "ref_free_list [] = True"
| "ref_free_list (x # xs) = (ref_free x \<and> ref_free_list xs)"
| "ref_free_fields [] = True"
| "ref_free_fields (kv # fs) = (ref_free (snd kv) \<and> ref_free_fields fs)"

text \<open>
  Modelled from the spec: the data-extraction operation of a document (section 6), which
  is \<^verbatim>\<open>data()\<close> of the snapshots of the firebase-admin client that the source imports.
  It builds a new tree of objects on every call, from the first free address \<open>n\<close>: a
  map is a new plain object, an array a new array, a timestamp a new \<^verbatim>\<open>Timestamp\<close>, a
  reference a new \<^verbatim>\<open>DocumentReference\<close>, which holds the Firestore instance \<open>c\<close> of
  the client (not a copy of it).
\<close>

fun decode :: "jsval \<Rightarrow> addr \<Rightarrow> fsval \<Rightarrow> jsval \<times> addr"
  and decode_list :: "jsval \<Rightarrow> addr \<Rightarrow> fsval list \<Rightarrow> jsval list \<times> addr"
  and decode_fields :: "jsval \<Rightarrow> addr \<Rightarrow> fields \<Rightarrow> props \<times> addr" where
  "decode c n FNull = (JNull, n)"
| "decode c n (FBool b) = (JBool b, n)"
| "decode c n (FNum r) = (JNum r, n)"
| "decode c n (FStr s) = (JStr s, n)"
| "decode c n (FTimestamp s ns) = (JTimestamp n s ns, Suc n)"
| "decode c n (FRef p) = (JDocRef n p c, Suc n)"
| "decode c n (FArr xs) = (case decode_list c (Suc n) xs of (ys, n') \<Rightarrow> (JArr n ys, n'))"
| "decode c n (FMap fs) = (case decode_fields c (Suc n) fs of (ps, n') \<Rightarrow> (JObj n ps, n'))"
| "decode_list c n [] = ([], n)"
| "decode_list c n (x # xs) =
     (case decode c n x of (y, n1) \<Rightarrow>
        (case decode_list c n1 xs of (ys, n2) \<Rightarrow> (y # ys, n2)))"
| "decode_fields c n [] = ([], n)"
| "decode_fields c n (kv # fs) =
     (case decode c n (snd kv) of (y, n1) \<Rightarrow>
        (case decode_fields c n1 fs of (ps, n2) \<Rightarrow> ((fst kv, y) # ps, n2)))"

text \<open>
  Modelled from the spec: how the client turns the record of a write into stored data
  (section 6: \<^verbatim>\<open>createDocument\<close> and \<^verbatim>\<open>updateDocument\<close> take a record). A Date and a
  \<^verbatim>\<open>Timestamp\<close> become a timestamp, a \<^verbatim>\<open>DocumentReference\<close> a reference, a plain object
  a map. The client refuses \<^verbatim>\<open>undefined\<close>, functions and instances of other classes
  (\<open>None\<close>).
\<close>

fun encode :: "jsval \<Rightarrow> fsval option"
  and encode_list :: "jsval list \<Rightarrow> fsval list option"
  and encode_props :: "props \<Rightarrow> fields option" where
  "encode JUndefined = None"
| "encode JNull = Some FNull"
| "encode (JBool b) = Some (FBool b)"
| "encode (JNum r) = Some (FNum r)"
| "encode (JStr s) = Some (FStr s)"
| "encode (JDate a t) = Some (FTimestamp (t div 1000) ((t mod 1000) * 1000000))"
| "encode (JArr a xs) = (case encode_list xs of None \<Rightarrow> None | Some ys \<Rightarrow> Some (FArr ys))"
| "encode (JObj a ps) = (case encode_props ps of None \<Rightarrow> None | Some fs \<Rightarrow> Some (FMap fs))"
| "encode (JTimestamp a s ns) = Some (FTimestamp s ns)"
| "encode (JDocRef a p c) = Some (FRef p)"
| "encode (JInst a cls ps) = None"
| "encode (JFun a) = None"
| "encode_list [] = Some []"
| "encode_list (x # xs) =
     (case encode x of
        None \<Rightarrow> None
      | Some y \<Rightarrow> (case encode_list xs of None \<Rightarrow> None | Some ys \<Rightarrow> Some (y # ys)))"
| "encode_props [] = Some []"
| "encode_props (kv # ps) =
     (case encode (snd kv) of
        None \<Rightarrow> None
      | Some y \<Rightarrow>
          (case encode_props ps of None \<Rightarrow> None | Some fs \<Rightarrow> Some ((fst kv, y) # fs)))"

text \<open>
  What a stored value is once it was read, cloned and written back: a timestamp has
  become the map of the two own properties of the \<^verbatim>\<open>Timestamp\<close>. (A reference cannot be
  cloned, so it is never written back; it is left as it is here.)
\<close>

fun written_back :: "fsval \<Rightarrow> fsval"
  and written_back_list :: "fsval list \<Rightarrow> fsval list"
  and written_back_fields :: "fields \<Rightarrow> fields" where
  "written_back FNull = FNull"
| "written_back (FBool b) = FBool b"
| "written_back (FNum r) = FNum r"
| "written_back (FStr s) = FStr s"
| "written_back (FTimestamp s ns) =
     FMap [(''_seconds'', FNum (of_int s)), (''_nanoseconds'', FNum (of_int ns))]"
| "written_back (FRef p) = FRef p"
| "written_back (FArr xs) = FArr (written_back_list xs)"
| "written_back (FMap fs) = FMap (written_back_fields fs)"
| "written_back_list [] = []"
| "written_back_list (x # xs) = written_back x # written_back_list xs"
| "written_back_fields [] = []"
| "written_back_fields (kv # fs) = (fst kv, written_back (snd kv)) # written_back_fields fs"

text \<open>
  A document snapshot exposes its key (\<^verbatim>\<open>doc.id\<close>) and its data (\<^verbatim>\<open>doc.data()\<close>, of type
  \<^verbatim>\<open>DocumentData | undefined\<close>: \<open>None\<close> is \<^verbatim>\<open>undefined\<close>).
\<close>

record snapshot =
  doc_id :: string
  doc_data :: "fields option"

datatype error =
    Error string
  | StoreFailure string
  | DataCloneError

datatype call =
    CreateDocument string
  | GetDocuments string
  | GetDocumentById string string
  | UpdateDocument string string
  | DeleteDocument string string

text \<open>
  Everything the service reads or changes: the collections of the store (documents in the
  order the store lists them), the key the store assigns to a new document of a
  collection, whether the store is failing (and with which message), the calls made to
  the repository so far, the clock read by \<^verbatim>\<open>new Date()\<close>, the next free object
  address, and the Firestore instance that the client holds.
\<close>

record world =
  collections :: "string \<Rightarrow> snapshot list"
  assign_key :: "snapshot list \<Rightarrow> string"
  fault :: "string option"
  calls :: "call list"
  clock :: int
  next_addr :: addr
  client :: jsval

definition log_call :: "call \<Rightarrow> world \<Rightarrow> world" where
  "log_call c w = w\<lparr>calls := calls w @ [c]\<rparr>"

text \<open>The failure of a write whose record the client refuses.\<close>

definition invalid_record :: error where
  "invalid_record = StoreFailure ''the record is not a valid document''"

text \<open>
  Modelled from the spec: \<^verbatim>\<open>createDocument\<close> of \<^verbatim>\<open>repositories/firestoreRepository\<close>,
  which is not part of the sources. Section 6: \<^verbatim>\<open>createDocument<T>(collectionName,
  partialRecord) -> id\<close>; the store assigns the key and holds the record as a new document.
\<close>

definition createDocument :: "string \<Rightarrow> jsval \<Rightarrow> world \<Rightarrow> (error + string) \<times> world" where
  "createDocument c record w =
     (let w1 = log_call (CreateDocument c) w in
      case fault w of
        Some msg \<Rightarrow> (Inl (StoreFailure msg), w1)
      | None \<Rightarrow>
          (case encode_props (props_of record) of
             None \<Rightarrow> (Inl invalid_record, w1)
           | Some fs \<Rightarrow>
               (let key = assign_key w (collections w c) in
                (Inr key,
                 w1\<lparr>collections := (collections w)
                       (c := collections w c @ [\<lparr>doc_id = key, doc_data = Some fs\<rparr>])\<rparr>))))"

text \<open>
  Modelled from the spec: \<^verbatim>\<open>getDocuments\<close> of the repository. Section 6:
  \<^verbatim>\<open>getDocuments(collectionName) -> list of documents\<close>, each exposing a key and a
  data-extraction operation.
\<close>

definition getDocuments :: "string \<Rightarrow> world \<Rightarrow> (error + snapshot list) \<times> world" where
  "getDocuments c w =
     (let w1 = log_call (GetDocuments c) w in
      case fault w of
        Some msg \<Rightarrow> (Inl (StoreFailure msg), w1)
      | None \<Rightarrow> (Inr (collections w c), w1))"

text \<open>
  Modelled from the spec: the document of a collection that has a given key, if there is
  one (section 6 and the glossary: the key identifies a document within its collection).
\<close>

definition find_doc :: "string \<Rightarrow> snapshot list \<Rightarrow> snapshot option" where
  "find_doc i docs = find (\<lambda>d. doc_id d = i) docs"

text \<open>
  Modelled from the spec: \<^verbatim>\<open>getDocumentById\<close> of the repository. Section 6:
  \<^verbatim>\<open>getDocumentById(collectionName, id) -> document-or-null\<close>; \<open>None\<close> is \<^verbatim>\<open>null\<close>.
\<close>

definition getDocumentById :: "string \<Rightarrow> string \<Rightarrow> world \<Rightarrow> (error + snapshot option) \<times> world" where
  "getDocumentById c i w =
     (let w1 = log_call (GetDocumentById c i) w in
      case fault w of
        Some msg \<Rightarrow> (Inl (StoreFailure msg), w1)
      | None \<Rightarrow> (Inr (find_doc i (collections w c)), w1))"

text \<open>
  Modelled from the spec: \<^verbatim>\<open>updateDocument\<close> of the repository. Section 6:
  \<^verbatim>\<open>updateDocument<T>(collectionName, id, fullRecord) -> void\<close>; section 4.1: a
  full-document overwrite, not a partial-field patch. The document keyed \<open>i\<close> holds
  the record afterwards; the spec does not say what happens when there is none, and the
  service never asks for it (here: nothing).
\<close>

definition updateDocument :: "string \<Rightarrow> string \<Rightarrow> jsval \<Rightarrow> world \<Rightarrow> (error + unit) \<times> world" where
  "updateDocument c i record w =
     (let w1 = log_call (UpdateDocument c i) w in
      case fault w of
        Some msg \<Rightarrow> (Inl (StoreFailure msg), w1)
      | None \<Rightarrow>
          (case encode_props (props_of record) of
             None \<Rightarrow> (Inl invalid_record, w1)
           | Some fs \<Rightarrow>
               (Inr (),
                w1\<lparr>collections := (collections w)
                      (c := map (\<lambda>d. if doc_id d = i then d\<lparr>doc_data := Some fs\<rparr> else d)
                              (collections w c))\<rparr>)))"

text \<open>
  Modelled from the spec: \<^verbatim>\<open>deleteDocument\<close> of the repository. Section 6:
  \<^verbatim>\<open>deleteDocument(collectionName, id) -> void\<close>; section 3: the document is removed
  permanently.
\<close>

definition deleteDocument :: "string \<Rightarrow> string \<Rightarrow> world \<Rightarrow> (error + unit) \<times> world" where
  "deleteDocument c i w =
     (let w1 = log_call (DeleteDocument c i) w in
      case fault w of
        Some msg \<Rightarrow> (Inl (StoreFailure msg), w1)
      | None \<Rightarrow>
          (Inr (),
           w1\<lparr>collections := (collections w)
                 (c := filter (\<lambda>d. doc_id d \<noteq> i) (collections w c))\<rparr>))"

section \<open>The movies service\<close>

definition COLLECTION :: string where
  "COLLECTION = ''movies''"

text \<open>Allocation of a plain object with the given properties, and of a Date.\<close>

definition new_object :: "props \<Rightarrow> world \<Rightarrow> jsval \<times> world" where
  "new_object ps w = (JObj (next_addr w) ps, w\<lparr>next_addr := Suc (next_addr w)\<rparr>)"

definition new_Date :: "world \<Rightarrow> jsval \<times> world" where
  "new_Date w = (JDate (next_addr w) (clock w), w\<lparr>next_addr := Suc (next_addr w)\<rparr>)"

text \<open>
  \<^verbatim>\<open>structuredClone(v)\<close>: the copy, or the \<^verbatim>\<open>DataCloneError\<close> it throws when the value
  holds something that cannot be cloned.
\<close>

definition structuredClone :: "jsval \<Rightarrow> world \<Rightarrow> (error + jsval) \<times> world" where
  "structuredClone v w =
     (case clone (next_addr w) v of
        None \<Rightarrow> (Inl DataCloneError, w)
      | Some (v', n') \<Rightarrow> (Inr v', w\<lparr>next_addr := n'\<rparr>))"

text \<open>
  \<^verbatim>\<open>doc.data()\<close>: \<^verbatim>\<open>undefined\<close> for a snapshot without data, else the own properties of
  the object that the client builds from the stored fields. That object is read by the
  spread only and occurs in no value, so it is given no address; its nested objects are
  allocated.
\<close>

definition snapshot_data :: "snapshot \<Rightarrow> world \<Rightarrow> props option \<times> world" where
  "snapshot_data doc w =
     (case doc_data doc of
        None \<Rightarrow> (None, w)
      | Some fs \<Rightarrow>
          (case decode_fields (client w) (next_addr w) fs of
             (ps, n') \<Rightarrow> (Some ps, w\<lparr>next_addr := n'\<rparr>)))"

text \<open>
  \<^verbatim>\<open>{ id: doc.id, ...data } as Movie\<close>, the literal of both \<^verbatim>\<open>getAllMovies\<close> and
  \<^verbatim>\<open>getMovieById\<close>: \<^verbatim>\<open>id\<close> is defined first and the data is spread over it. The
  cast does nothing at run time. Spreading \<^verbatim>\<open>undefined\<close> adds nothing.
\<close>

definition data_props :: "props option \<Rightarrow> props" where
  "data_props data = (case data of None \<Rightarrow> [] | Some ps \<Rightarrow> ps)"

definition movie_of_doc :: "snapshot \<Rightarrow> world \<Rightarrow> jsval \<times> world" where
  "movie_of_doc doc w =
     (case snapshot_data doc w of (data, w1) \<Rightarrow>
        new_object (spread_into (data_props data) [(''id'', JStr (doc_id doc))]) w1)"

text \<open>\<^verbatim>\<open>snapshot.docs.map((doc) => ...)\<close>: one object per document, in order.\<close>

fun docs_map :: "snapshot list \<Rightarrow> world \<Rightarrow> jsval list \<times> world" where
  "docs_map [] w = ([], w)"
| "docs_map (doc # docs) w =
     (case movie_of_doc doc w of (m, w1) \<Rightarrow>
        (case docs_map docs w1 of (ms, w2) \<Rightarrow> (m # ms, w2)))"

text \<open>
  \<^verbatim>\<open>getAllMovies\<close>: the \<^verbatim>\<open>catch\<close> block throws what it caught, so a failure of
  \<^verbatim>\<open>getDocuments\<close> is the failure of the call. The mapped objects are returned as they
  are: there is no \<^verbatim>\<open>structuredClone\<close> here.
\<close>

definition getAllMovies :: "world \<Rightarrow> (error + jsval list) \<times> world" where
  "getAllMovies w =
     (case getDocuments COLLECTION w of
        (Inl e, w1) \<Rightarrow> (Inl e, w1)
      | (Inr docs, w1) \<Rightarrow>
          (case docs_map docs w1 of (movies, w2) \<Rightarrow> (Inr movies, w2)))"

definition not_found :: "string \<Rightarrow> error" where
  "not_found i = Error (''Movie with ID '' @ i @ '' not found'')"

definition getMovieById :: "string \<Rightarrow> world \<Rightarrow> (error + jsval) \<times> world" where
  "getMovieById i w =
     (case getDocumentById COLLECTION i w of
        (Inl e, w1) \<Rightarrow> (Inl e, w1)
      | (Inr None, w1) \<Rightarrow> (Inl (not_found i), w1)
      | (Inr (Some doc), w1) \<Rightarrow>
          (case movie_of_doc doc w1 of (movie, w2) \<Rightarrow> structuredClone movie w2))"

text \<open>
  \<^verbatim>\<open>createMovie\<close>: the argument is an object; \<open>movieData\<close> is the list of its own
  properties, which is all the code reads of it (both spreads copy every own property,
  whatever the declared type says of them).
\<close>

definition createMovie :: "props \<Rightarrow> world \<Rightarrow> (error + jsval) \<times> world" where
  "createMovie movieData w =
     (case new_Date w of (dateNow, w1) \<Rightarrow>
        (case new_object (set_prop ''createdAt'' dateNow (spread_into movieData [])) w1
         of (newMovie, w2) \<Rightarrow>
           (case createDocument COLLECTION newMovie w2 of
              (Inl e, w3) \<Rightarrow> (Inl e, w3)
            | (Inr movieId, w3) \<Rightarrow>
                (case new_object (spread_into (props_of newMovie) [(''id'', JStr movieId)]) w3
                 of (movie, w4) \<Rightarrow> structuredClone movie w4))))"

text \<open>
  The argument of \<^verbatim>\<open>updateMovie\<close>: the three fields the code tests against
  \<^verbatim>\<open>undefined\<close>; \<open>None\<close> is \<^verbatim>\<open>undefined\<close>. Nothing else of the argument is read.
\<close>

record movie_update =
  up_title :: "string option"
  up_description :: "string option"
  up_genre :: "string option"

definition assign_if_defined :: "string \<Rightarrow> string option \<Rightarrow> jsval \<Rightarrow> jsval" where
  "assign_if_defined k field movie =
     (case field of None \<Rightarrow> movie | Some s \<Rightarrow> assign k (JStr s) movie)"

definition merge_update :: "movie_update \<Rightarrow> jsval \<Rightarrow> jsval" where
  "merge_update movieData movie =
     assign_if_defined ''genre'' (up_genre movieData)
       (assign_if_defined ''description'' (up_description movieData)
          (assign_if_defined ''title'' (up_title movieData) movie))"

definition updateMovie :: "string \<Rightarrow> movie_update \<Rightarrow> world \<Rightarrow> (error + jsval) \<times> world" where
  "updateMovie i movieData w =
     (case getMovieById i w of
        (Inl e, w1) \<Rightarrow> (Inl e, w1)
      | (Inr movie, w1) \<Rightarrow>
          if \<not> truthy movie then (Inl (not_found i), w1)
          else
            (let updateMovie = merge_update movieData movie in
             case updateDocument COLLECTION i updateMovie w1 of
               (Inl e, w2) \<Rightarrow> (Inl e, w2)
             | (Inr u, w2) \<Rightarrow> structuredClone updateMovie w2))"

definition deleteMovie :: "string \<Rightarrow> world \<Rightarrow> (error + unit) \<times> world" where
  "deleteMovie i w =
     (case getMovieById i w of
        (Inl e, w1) \<Rightarrow> (Inl e, w1)
      | (Inr movie, w1) \<Rightarrow>
          if \<not> truthy movie then (Inl (not_found i), w1)
          else deleteDocument COLLECTION i w1)"

section \<open>What the statements speak of\<close>

text \<open>
  The stored fields of a snapshot (none when it has no data), and whether they are free
  of references.
\<close>

definition data_fields :: "snapshot \<Rightarrow> fields" where
  "data_fields doc = (case doc_data doc of None \<Rightarrow> [] | Some fs \<Rightarrow> fs)"

definition data_ref_free :: "snapshot \<Rightarrow> bool" where
  "data_ref_free doc = ref_free_fields (data_fields doc)"

text \<open>
  The properties of \<^verbatim>\<open>{ id: doc.id, ...doc.data() }\<close> for a snapshot, with the data built
  from address 0 by a client that holds \<open>c\<close>: what a record read from the store is
  compared with (by content, so the addresses do not matter).
\<close>

definition movie_literal :: "jsval \<Rightarrow> snapshot \<Rightarrow> props" where
  "movie_literal c doc =
     spread_into (fst (decode_fields c 0 (data_fields doc))) [(''id'', JStr (doc_id doc))]"

text \<open>
  The fields of \<^verbatim>\<open>{ id: doc.id, ...doc.data() }\<close> as the store takes them back after a
  clone: what a document written by \<^verbatim>\<open>updateMovie\<close> is compared with.
\<close>

definition literal_fields :: "snapshot \<Rightarrow> fields" where
  "literal_fields doc =
     spread_into (written_back_fields (data_fields doc)) [(''id'', FStr (doc_id doc))]"

text \<open>
  What \<^verbatim>\<open>getMovieById\<close> builds from a found snapshot when \<open>n\<close> is the next free
  address: the data, the literal, then its clone; the result is the clone and the next
  free address, or nothing when the literal cannot be cloned.
\<close>

definition fetched :: "jsval \<Rightarrow> snapshot \<Rightarrow> addr \<Rightarrow> (jsval \<times> addr) option" where
  "fetched c doc n =
     (case decode_fields c n (data_fields doc) of
        (ps, n1) \<Rightarrow> clone (Suc n1) (JObj n1 (spread_into ps [(''id'', JStr (doc_id doc))])))"

text \<open>The property names a document of the movies collection holds, in order.\<close>

definition stored_names :: "string \<Rightarrow> world \<Rightarrow> string list" where
  "stored_names i w =
     (case find_doc i (collections w COLLECTION) of
        None \<Rightarrow> []
      | Some doc \<Rightarrow> map fst (data_fields doc))"

text \<open>
  Modelled from the spec: the fields of the \<^verbatim>\<open>Movie\<close> interface of
  \<^verbatim>\<open>models/movieModel\<close>, which is not part of the sources (section 3).
\<close>

definition movie_shape :: "string list" where
  "movie_shape = [''id'', ''title'', ''description'', ''genre'', ''rating'', ''createdAt'']"

section \<open>Stores to run the service on\<close>

text \<open>
  The Firestore instance of the client: an object with functions among its properties,
  allocated before the service runs.
\<close>

definition firestore_client :: jsval where
  "firestore_client =
     JInst 0 ''Firestore''
       [(''_serializer'', JInst 1 ''Serializer'' [(''createReference'', JFun 2)])]"

text \<open>
  Four documents: a complete movie, a document without data, a document whose data has an
  \<^verbatim>\<open>id\<close> field of its own, and a document with a field outside the Movie shape and a
  nested array.
\<close>

definition dune_fields :: fields where
  "dune_fields =
     [(''title'', FStr ''Dune''), (''description'', FStr ''Desert planet''),
      (''genre'', FStr ''Sci-Fi''), (''rating'', FNum (17 / 2)),
      (''createdAt'', FTimestamp 1 0)]"

definition heat_fields :: fields where
  "heat_fields =
     [(''title'', FStr ''Heat''), (''director'', FStr ''Mann''),
      (''cast'', FArr [FStr ''Pacino''])]"

definition movies0 :: "snapshot list" where
  "movies0 =
     [\<lparr>doc_id = ''m1'', doc_data = Some dune_fields\<rparr>,
      \<lparr>doc_id = ''m2'', doc_data = None\<rparr>,
      \<lparr>doc_id = ''m3'', doc_data = Some [(''id'', FStr ''m1''), (''title'', FStr ''Alien'')]\<rparr>,
      \<lparr>doc_id = ''m4'', doc_data = Some heat_fields\<rparr>]"

definition world0 :: world where
  "world0 =
     \<lparr>collections = (\<lambda>c. if c = ''movies'' then movies0 else []),
      assign_key = (\<lambda>docs. replicate (Suc (length docs)) CHR ''k''),
      fault = None, calls = [], clock = 5000, next_addr = 10,
      client = firestore_client\<rparr>"

text \<open>A store whose only movie has a reference to another document among its fields.\<close>

definition arrival_fields :: fields where
  "arrival_fields = [(''title'', FStr ''Arrival''), (''studio'', FRef ''studios/s1'')]"

definition world1 :: world where
  "world1 =
     \<lparr>collections =
        (\<lambda>c. if c = ''movies'' then [\<lparr>doc_id = ''m5'', doc_data = Some arrival_fields\<rparr>] else []),
      assign_key = (\<lambda>docs. replicate (Suc (length docs)) CHR ''k''),
      fault = None, calls = [], clock = 5000, next_addr = 10,
      client = firestore_client\<rparr>"

text \<open>
  Arguments: a new movie; a new movie whose object has an own property \<^verbatim>\<open>id\<close> beside the
  declared ones (which the declared type of the parameter admits); an update of the title.
\<close>

definition dune_input :: props where
  "dune_input =
     [(''title'', JStr ''Dune''), (''description'', JStr ''Desert planet''),
      (''genre'', JStr ''Sci-Fi''), (''rating'', JNum (17 / 2))]"

definition evil_input :: props where
  "evil_input =
     [(''title'', JStr ''Dune''), (''description'', JStr ''Desert planet''),
      (''genre'', JStr ''Sci-Fi''), (''id'', JStr ''evil'')]"

definition title_only :: movie_update where
  "title_only = \<lparr>up_title = Some ''X'', up_description = None, up_genre = None\<rparr>"

section \<open>Properties and spread\<close>

lemma map_of_set_prop: "map_of (set_prop k v ps) = (map_of ps)(k \<mapsto> v)"
  by (induction ps) (auto simp: fun_eq_iff)

lemma names_set_prop: "fst ` set (set_prop k v ps) = insert k (fst ` set ps)"
  by (induction ps) force+

lemma map_of_spread_into:
  "map_of (spread_into src target) = map_of target ++ map_of (rev src)"
  unfolding spread_into_def
  by (induction src arbitrary: target)
     (auto simp: map_of_set_prop fun_eq_iff map_add_def split: option.splits)

lemma names_spread_into:
  "fst ` set (spread_into src target) = fst ` set target \<union> fst ` set src"
  unfolding spread_into_def
  by (induction src arbitrary: target) (auto simp: names_set_prop)

lemma set_set_prop: "set (set_prop k v ps) \<subseteq> insert (k, v) (set ps)"
  by (induction ps) (auto split: if_splits)

lemma set_spread_into: "set (spread_into src target) \<subseteq> set target \<union> set src"
  unfolding spread_into_def
proof (induction src arbitrary: target)
  case Nil
  then show ?case by simp
next
  case (Cons kv src)
  show ?case
    using Cons.IH[of "set_prop (fst kv) (snd kv) target"]
      set_set_prop[of "fst kv" "snd kv" target]
    by auto
qed

lemma map_set_prop:
  "map (\<lambda>kv. (fst kv, f (snd kv))) (set_prop k v ps)
     = set_prop k (f v) (map (\<lambda>kv. (fst kv, f (snd kv))) ps)"
  by (induction ps) auto

lemma map_spread_into:
  "map (\<lambda>kv. (fst kv, f (snd kv))) (spread_into src target)
     = spread_into (map (\<lambda>kv. (fst kv, f (snd kv))) src) (map (\<lambda>kv. (fst kv, f (snd kv))) target)"
  unfolding spread_into_def
  by (induction src arbitrary: target) (simp_all add: map_set_prop)

lemma content_props_map: "content_props ps = map (\<lambda>kv. (fst kv, content (snd kv))) ps"
  by (induction ps) auto

lemma written_back_fields_map:
  "written_back_fields fs = map (\<lambda>kv. (fst kv, written_back (snd kv))) fs"
  by (induction fs) auto

lemma content_spread_into:
  "content_props (spread_into src target) = spread_into (content_props src) (content_props target)"
  by (simp add: content_props_map map_spread_into)

lemma content_set_prop:
  "content_props (set_prop k v ps) = set_prop k (content v) (content_props ps)"
  by (simp add: content_props_map map_set_prop)

lemma map_of_content_props: "map_of (content_props ps) k = map_option content (map_of ps k)"
  by (induction ps) auto

lemma get_prop_content: "get_prop k (content (JObj a ps)) = content (get_prop k (JObj a ps))"
  by (auto simp: map_of_content_props split: option.splits)

lemma cloneable_props_iff: "cloneable_props ps \<longleftrightarrow> (\<forall>kv \<in> set ps. cloneable (snd kv))"
  by (induction ps) auto

lemma cloneable_set_prop:
  "cloneable v \<Longrightarrow> cloneable_props ps \<Longrightarrow> cloneable_props (set_prop k v ps)"
  using set_set_prop[of k v ps] by (fastforce simp: cloneable_props_iff)

lemma cloneable_spread_into:
  "cloneable_props src \<Longrightarrow> cloneable_props target \<Longrightarrow> cloneable_props (spread_into src target)"
  using set_spread_into[of src target] by (fastforce simp: cloneable_props_iff)

section \<open>The structured clone\<close>

lemma clone_content:
  "clone n v = Some (v', n') \<Longrightarrow> content v' = content v"
  "clone_list n xs = Some (xs', n') \<Longrightarrow> content_list xs' = content_list xs"
  "clone_props n ps = Some (ps', n') \<Longrightarrow> content_props ps' = content_props ps"
  by (induction n v and n xs and n ps arbitrary: v' n' and xs' n' and ps' n'
      rule: clone_clone_list_clone_props.induct)
     (auto split: option.splits)

lemma clone_mono:
  "clone n v = Some (v', n') \<Longrightarrow> n \<le> n'"
  "clone_list n xs = Some (xs', n') \<Longrightarrow> n \<le> n'"
  "clone_props n ps = Some (ps', n') \<Longrightarrow> n \<le> n'"
proof (induction n v and n xs and n ps arbitrary: v' n' and xs' n' and ps' n'
      rule: clone_clone_list_clone_props.induct)
  case (7 n a xs)
  then show ?case by (auto split: option.splits dest!: Suc_leD)
next
  case (8 n a ps)
  then show ?case by (auto split: option.splits dest!: Suc_leD)
next
  case (10 n a p c)
  then show ?case by (auto split: option.splits dest!: Suc_leD)
next
  case (11 n a cls ps)
  then show ?case by (auto split: option.splits dest!: Suc_leD)
next
  case (14 n x xs)
  from "14.prems" obtain y n1 ys where
    c1: "clone n x = Some (y, n1)" and c2: "clone_list n1 xs = Some (ys, n')"
    by (auto split: option.splits)
  from "14.IH"(1)[OF c1] "14.IH"(2)[OF c1 _ c2] show ?case by simp
next
  case (16 n kv ps)
  from "16.prems" obtain y n1 qs where
    c1: "clone n (snd kv) = Some (y, n1)" and c2: "clone_props n1 ps = Some (qs, n')"
    by (auto split: option.splits)
  from "16.IH"(1)[OF c1] "16.IH"(2)[OF c1 _ c2] show ?case by simp
qed auto

lemma clone_fresh:
  "clone n v = Some (v', n') \<Longrightarrow> addrs v' \<subseteq> {n ..< n'}"
  "clone_list n xs = Some (xs', n') \<Longrightarrow> addrs_list xs' \<subseteq> {n ..< n'}"
  "clone_props n ps = Some (ps', n') \<Longrightarrow> addrs_props ps' \<subseteq> {n ..< n'}"
proof (induction n v and n xs and n ps arbitrary: v' n' and xs' n' and ps' n'
      rule: clone_clone_list_clone_props.induct)
  case (7 n a xs)
  then show ?case using clone_mono(2)[of "Suc n" xs] by (fastforce split: option.splits)
next
  case (8 n a ps)
  then show ?case using clone_mono(3)[of "Suc n" ps] by (fastforce split: option.splits)
next
  case (10 n a p c)
  then show ?case using clone_mono(1)[of "Suc n" c] by (fastforce split: option.splits)
next
  case (11 n a cls ps)
  then show ?case using clone_mono(3)[of "Suc n" ps] by (fastforce split: option.splits)
next
  case (14 n x xs)
  from "14.prems" obtain y n1 ys where
    c1: "clone n x = Some (y, n1)" and c2: "clone_list n1 xs = Some (ys, n')" and
    r: "xs' = y # ys"
    by (auto split: option.splits)
  from "14.IH"(1)[OF c1] have a1: "addrs y \<subseteq> {n ..< n1}" .
  from "14.IH"(2)[OF c1 _ c2] have a2: "addrs_list ys \<subseteq> {n1 ..< n'}" by simp
  from clone_mono(1)[OF c1] clone_mono(2)[OF c2] a1 a2 r show ?case by fastforce
next
  case (16 n kv ps)
  from "16.prems" obtain y n1 qs where
    c1: "clone n (snd kv) = Some (y, n1)" and c2: "clone_props n1 ps = Some (qs, n')" and
    r: "ps' = (fst kv, y) # qs"
    by (auto split: option.splits)
  from "16.IH"(1)[OF c1] have a1: "addrs y \<subseteq> {n ..< n1}" .
  from "16.IH"(2)[OF c1 _ c2] have a2: "addrs_props qs \<subseteq> {n1 ..< n'}" by simp
  from clone_mono(1)[OF c1] clone_mono(3)[OF c2] a1 a2 r show ?case by fastforce
qed auto

lemma clone_cloneable:
  "cloneable v \<Longrightarrow> \<exists>r. clone n v = Some r"
  "cloneable_list xs \<Longrightarrow> \<exists>r. clone_list n xs = Some r"
  "cloneable_props ps \<Longrightarrow> \<exists>r. clone_props n ps = Some r"
proof (induction v and xs and ps arbitrary: n and n and n
      rule: cloneable_cloneable_list_cloneable_props.induct)
  case (7 a xs)
  then have "\<exists>r. clone_list (Suc n) xs = Some r" by simp
  then show ?case by auto
next
  case (8 a ps)
  then have "\<exists>r. clone_props (Suc n) ps = Some r" by simp
  then show ?case by auto
next
  case (10 a p c)
  then have "\<exists>r. clone (Suc n) c = Some r" by simp
  then show ?case by auto
next
  case (11 a cls ps)
  then have "\<exists>r. clone_props (Suc n) ps = Some r" by simp
  then show ?case by auto
next
  case (14 x xs)
  then have "\<exists>r. clone n x = Some r" by simp
  then obtain y n1 where c1: "clone n x = Some (y, n1)" by auto
  from 14 have "\<exists>r. clone_list n1 xs = Some r" by simp
  then obtain ys n2 where c2: "clone_list n1 xs = Some (ys, n2)" by auto
  from c1 c2 show ?case by simp
next
  case (16 kv ps)
  then have "\<exists>r. clone n (snd kv) = Some r" by simp
  then obtain y n1 where c1: "clone n (snd kv) = Some (y, n1)" by auto
  from 16 have "\<exists>r. clone_props n1 ps = Some r" by simp
  then obtain qs n2 where c2: "clone_props n1 ps = Some (qs, n2)" by auto
  from c1 c2 show ?case by simp
qed auto

lemma clone_function:
  "clone n v \<noteq> None \<Longrightarrow> cloneable v"
  "clone_list n xs \<noteq> None \<Longrightarrow> cloneable_list xs"
  "clone_props n ps \<noteq> None \<Longrightarrow> cloneable_props ps"
  by (induction n v and n xs and n ps rule: clone_clone_list_clone_props.induct)
     (auto split: option.splits)

lemma clone_result_cloneable:
  "clone n v = Some (v', n') \<Longrightarrow> cloneable v'"
  "clone_list n xs = Some (xs', n') \<Longrightarrow> cloneable_list xs'"
  "clone_props n ps = Some (ps', n') \<Longrightarrow> cloneable_props ps'"
  by (induction n v and n xs and n ps arbitrary: v' n' and xs' n' and ps' n'
      rule: clone_clone_list_clone_props.induct)
     (auto split: option.splits)

lemma clone_encode:
  "clone n v = Some (v', n') \<Longrightarrow> encode v' = encode (content v)"
  "clone_list n xs = Some (xs', n') \<Longrightarrow> encode_list xs' = encode_list (content_list xs)"
  "clone_props n ps = Some (ps', n') \<Longrightarrow> encode_props ps' = encode_props (content_props ps)"
  by (induction n v and n xs and n ps arbitrary: v' n' and xs' n' and ps' n'
      rule: clone_clone_list_clone_props.induct)
     (auto split: option.splits)

lemma clone_result_encode:
  "clone n v = Some (v', n') \<Longrightarrow> encode (content v') = encode v'"
  "clone_list n xs = Some (xs', n') \<Longrightarrow> encode_list (content_list xs') = encode_list xs'"
  "clone_props n ps = Some (ps', n') \<Longrightarrow> encode_props (content_props ps') = encode_props ps'"
  by (induction n v and n xs and n ps arbitrary: v' n' and xs' n' and ps' n'
      rule: clone_clone_list_clone_props.induct)
     (auto split: option.splits)

lemma clone_obj: "clone n (JObj a ps) = Some (v', n') \<Longrightarrow> \<exists>qs. v' = JObj n qs"
  by (auto split: option.splits)

section \<open>Reading and writing stored data\<close>

lemma decode_content:
  "content (fst (decode c n v)) = content (fst (decode c m v))"
  "content_list (fst (decode_list c n xs)) = content_list (fst (decode_list c m xs))"
  "content_props (fst (decode_fields c n fs)) = content_props (fst (decode_fields c m fs))"
proof (induction v and xs and fs arbitrary: n m and n m and n m
      rule: ref_free_ref_free_list_ref_free_fields.induct)
  case (7 xs)
  from 7[of "Suc n" "Suc m"] show ?case by (simp add: case_prod_beta)
next
  case (8 fs)
  from 8[of "Suc n" "Suc m"] show ?case by (simp add: case_prod_beta)
next
  case (10 x xs)
  from "10.IH"(1)[of n m] "10.IH"(2)[of "snd (decode c n x)" "snd (decode c m x)"]
  show ?case by (simp add: case_prod_beta)
next
  case (12 kv fs)
  from "12.IH"(1)[of n m]
    "12.IH"(2)[of "snd (decode c n (snd kv))" "snd (decode c m (snd kv))"]
  show ?case by (simp add: case_prod_beta)
qed simp_all

lemma decode_names: "map fst (fst (decode_fields c n fs)) = map fst fs"
  by (induction fs arbitrary: n) (simp_all add: case_prod_beta)

lemma decode_mono:
  "n \<le> snd (decode c n v)"
  "n \<le> snd (decode_list c n xs)"
  "n \<le> snd (decode_fields c n fs)"
proof (induction v and xs and fs arbitrary: n and n and n
      rule: ref_free_ref_free_list_ref_free_fields.induct)
  case (7 xs)
  from 7[of "Suc n"] show ?case by (simp add: case_prod_beta Suc_leD)
next
  case (8 fs)
  from 8[of "Suc n"] show ?case by (simp add: case_prod_beta Suc_leD)
next
  case (10 x xs)
  from "10.IH"(1)[of n] "10.IH"(2)[of "snd (decode c n x)"]
  show ?case by (simp add: case_prod_beta)
next
  case (12 kv fs)
  from "12.IH"(1)[of n] "12.IH"(2)[of "snd (decode c n (snd kv))"]
  show ?case by (simp add: case_prod_beta)
qed simp_all

lemma decode_cloneable:
  "ref_free v \<Longrightarrow> cloneable (fst (decode c n v))"
  "ref_free_list xs \<Longrightarrow> cloneable_list (fst (decode_list c n xs))"
  "ref_free_fields fs \<Longrightarrow> cloneable_props (fst (decode_fields c n fs))"
  by (induction v and xs and fs arbitrary: n and n and n
      rule: ref_free_ref_free_list_ref_free_fields.induct)
     (simp_all add: case_prod_beta)

lemma decode_encode:
  "ref_free v \<Longrightarrow> encode (content (fst (decode c n v))) = Some (written_back v)"
  "ref_free_list xs \<Longrightarrow>
     encode_list (content_list (fst (decode_list c n xs))) = Some (written_back_list xs)"
  "ref_free_fields fs \<Longrightarrow>
     encode_props (content_props (fst (decode_fields c n fs))) = Some (written_back_fields fs)"
  by (induction v and xs and fs arbitrary: n and n and n
      rule: ref_free_ref_free_list_ref_free_fields.induct)
     (simp_all add: case_prod_beta)

lemma decode_fresh:
  "ref_free v \<Longrightarrow> addrs (fst (decode c n v)) \<subseteq> {n ..< snd (decode c n v)}"
  "ref_free_list xs \<Longrightarrow> addrs_list (fst (decode_list c n xs)) \<subseteq> {n ..< snd (decode_list c n xs)}"
  "ref_free_fields fs \<Longrightarrow>
     addrs_props (fst (decode_fields c n fs)) \<subseteq> {n ..< snd (decode_fields c n fs)}"
proof (induction v and xs and fs arbitrary: n and n and n
      rule: ref_free_ref_free_list_ref_free_fields.induct)
  case (7 xs)
  from 7 have "addrs_list (fst (decode_list c (Suc n) xs)) \<subseteq> {Suc n ..< snd (decode_list c (Suc n) xs)}"
    by simp
  then show ?case using decode_mono(2)[of "Suc n" c xs] by (auto simp: case_prod_beta)
next
  case (8 fs)
  from 8 have "addrs_props (fst (decode_fields c (Suc n) fs)) \<subseteq> {Suc n ..< snd (decode_fields c (Suc n) fs)}"
    by simp
  then show ?case using decode_mono(3)[of "Suc n" c fs] by (auto simp: case_prod_beta)
next
  case (10 x xs)
  let ?n1 = "snd (decode c n x)"
  from 10 have a1: "addrs (fst (decode c n x)) \<subseteq> {n ..< ?n1}" by simp
  from 10 have a2: "addrs_list (fst (decode_list c ?n1 xs)) \<subseteq> {?n1 ..< snd (decode_list c ?n1 xs)}"
    by simp
  from a1 a2 decode_mono(1)[of n c x] decode_mono(2)[of ?n1 c xs]
  show ?case by (fastforce simp: case_prod_beta)
next
  case (12 kv fs)
  let ?n1 = "snd (decode c n (snd kv))"
  from 12 have a1: "addrs (fst (decode c n (snd kv))) \<subseteq> {n ..< ?n1}" by simp
  from 12 have a2: "addrs_props (fst (decode_fields c ?n1 fs)) \<subseteq> {?n1 ..< snd (decode_fields c ?n1 fs)}"
    by simp
  from a1 a2 decode_mono(1)[of n c "snd kv"] decode_mono(3)[of ?n1 c fs]
  show ?case by (fastforce simp: case_prod_beta)
qed simp_all

lemma encode_set_prop:
  "encode_props ps = Some fs \<Longrightarrow> encode v = Some f \<Longrightarrow>
   encode_props (set_prop k v ps) = Some (set_prop k f fs)"
  by (induction ps arbitrary: fs) (auto split: option.splits)

lemma encode_spread_into:
  "encode_props src = Some a \<Longrightarrow> encode_props target = Some b \<Longrightarrow>
   encode_props (spread_into src target) = Some (spread_into a b)"
  unfolding spread_into_def
proof (induction src arbitrary: a target b)
  case Nil
  then show ?case by simp
next
  case (Cons kv src)
  from Cons.prems(1) obtain f a' where
    f: "encode (snd kv) = Some f" and a': "encode_props src = Some a'" and
    a: "a = (fst kv, f) # a'"
    by (auto split: option.splits)
  from encode_set_prop[OF Cons.prems(2) f]
  have "encode_props (set_prop (fst kv) (snd kv) target) = Some (set_prop (fst kv) f b)" .
  from Cons.IH[OF a' this] show ?case by (simp add: a)
qed

section \<open>The repository when the store answers\<close>

lemma getDocumentById_ok:
  "fault w = None \<Longrightarrow>
   getDocumentById c i w = (Inr (find_doc i (collections w c)), log_call (GetDocumentById c i) w)"
  by (simp add: getDocumentById_def)

lemma updateDocument_ok:
  "fault w = None \<Longrightarrow> encode_props (props_of record) = Some fs \<Longrightarrow>
   updateDocument c i record w =
     (Inr (),
      (log_call (UpdateDocument c i) w)
        \<lparr>collections := (collections w)
           (c := map (\<lambda>d. if doc_id d = i then d\<lparr>doc_data := Some fs\<rparr> else d)
                   (collections w c))\<rparr>)"
  by (simp add: updateDocument_def)


lemma find_doc_None_iff: "find_doc i docs = None \<longleftrightarrow> i \<notin> doc_id ` set docs"
  by (auto simp: find_doc_def find_None_iff)

lemma find_doc_Some_id: "find_doc i docs = Some doc \<Longrightarrow> doc_id doc = i"
  by (auto simp: find_doc_def find_Some_iff)

lemma find_doc_Some_in: "find_doc i docs = Some doc \<Longrightarrow> i \<in> doc_id ` set docs"
  using find_doc_None_iff[of i docs] by auto


lemma find_doc_overwrite:
  "find_doc i docs = Some doc \<Longrightarrow>
   find_doc i (map (\<lambda>d. if doc_id d = i then d\<lparr>doc_data := x\<rparr> else d) docs)
     = Some (doc\<lparr>doc_data := x\<rparr>)"
  by (induction docs) (auto simp: find_doc_def)

section \<open>What getMovieById builds\<close>

lemma movie_of_doc_eq:
  "movie_of_doc doc w =
     (JObj (snd (decode_fields (client w) (next_addr w) (data_fields doc)))
        (spread_into (fst (decode_fields (client w) (next_addr w) (data_fields doc)))
           [(''id'', JStr (doc_id doc))]),
      w\<lparr>next_addr := Suc (snd (decode_fields (client w) (next_addr w) (data_fields doc)))\<rparr>)"
  by (cases "doc_data doc")
     (simp_all add: movie_of_doc_def snapshot_data_def data_fields_def data_props_def
        new_object_def case_prod_beta)

lemma fetched_obj: "fetched c doc n = Some (m, n2) \<Longrightarrow> \<exists>a ps. m = JObj a ps"
  by (auto simp: fetched_def case_prod_beta split: option.splits)

lemma fetched_cloneable: "fetched c doc n = Some (m, n2) \<Longrightarrow> cloneable m"
  unfolding fetched_def case_prod_beta by (rule clone_result_cloneable(1))


lemma fetched_ref_free:
  assumes "data_ref_free doc"
  shows "\<exists>m n2. fetched c doc n = Some (m, n2)"
proof -
  let ?ps = "fst (decode_fields c n (data_fields doc))"
  from assms have "cloneable_props ?ps"
    by (simp add: data_ref_free_def decode_cloneable(3))
  then have "cloneable (JObj (snd (decode_fields c n (data_fields doc)))
               (spread_into ?ps [(''id'', JStr (doc_id doc))]))"
    by (simp add: cloneable_spread_into)
  from clone_cloneable(1)[OF this] show ?thesis
    by (auto simp: fetched_def case_prod_beta)
qed

lemma fetched_encode:
  assumes "data_ref_free doc" and "fetched c doc n = Some (m, n2)"
  shows "encode_props (props_of m) = Some (literal_fields doc)"
proof -
  let ?ps = "fst (decode_fields c n (data_fields doc))"
  let ?n1 = "snd (decode_fields c n (data_fields doc))"
  let ?lit = "spread_into ?ps [(''id'', JStr (doc_id doc))]"
  from assms(2) have c: "clone (Suc ?n1) (JObj ?n1 ?lit) = Some (m, n2)"
    by (simp add: fetched_def case_prod_beta)
  then obtain qs where m: "m = JObj (Suc ?n1) qs" and q: "clone_props (Suc (Suc ?n1)) ?lit = Some (qs, n2)"
    by (auto split: option.splits)
  from clone_encode(3)[OF q]
  have "encode_props qs = encode_props (spread_into (content_props ?ps) [(''id'', JStr (doc_id doc))])"
    by (simp add: content_spread_into)
  also have "\<dots> = Some (literal_fields doc)"
    unfolding literal_fields_def
    by (rule encode_spread_into)
       (use assms(1) in \<open>simp_all add: data_ref_free_def decode_encode(3)\<close>)
  finally show ?thesis by (simp add: m)
qed

lemma fetched_fresh:
  assumes "fetched c doc n = Some (m, n2)"
  shows "addrs m \<subseteq> {n ..< n2}"
proof -
  let ?n1 = "snd (decode_fields c n (data_fields doc))"
  from assms have "addrs m \<subseteq> {Suc ?n1 ..< n2}"
    unfolding fetched_def case_prod_beta by (rule clone_fresh(1))
  with decode_mono(3)[of n c "data_fields doc"] show ?thesis by auto
qed

section \<open>The four outcomes of getMovieById\<close>

lemma getMovieById_fault:
  "fault w = Some msg \<Longrightarrow>
   getMovieById i w = (Inl (StoreFailure msg), log_call (GetDocumentById COLLECTION i) w)"
  by (simp add: getMovieById_def getDocumentById_def)

lemma getMovieById_absent:
  assumes "fault w = None" and "find_doc i (collections w COLLECTION) = None"
  shows "getMovieById i w = (Inl (not_found i), log_call (GetDocumentById COLLECTION i) w)"
  using assms by (simp add: getMovieById_def getDocumentById_ok)

lemma getMovieById_found:
  assumes "fault w = None" and "find_doc i (collections w COLLECTION) = Some doc"
  shows "getMovieById i w =
           (case fetched (client w) doc (next_addr w) of
              None \<Rightarrow>
                (Inl DataCloneError,
                 (log_call (GetDocumentById COLLECTION i) w)
                   \<lparr>next_addr :=
                      Suc (snd (decode_fields (client w) (next_addr w) (data_fields doc)))\<rparr>)
            | Some (m, n2) \<Rightarrow>
                (Inr m, (log_call (GetDocumentById COLLECTION i) w)\<lparr>next_addr := n2\<rparr>))"
  using assms
  by (simp add: getMovieById_def getDocumentById_ok movie_of_doc_eq structuredClone_def
      log_call_def fetched_def case_prod_beta del: clone.simps split: option.splits)

lemma getMovieById_resolves:
  assumes "fault w = None" and "find_doc i (collections w COLLECTION) = Some doc"
    and "fetched (client w) doc (next_addr w) = Some (m, n2)"
  shows "getMovieById i w = (Inr m, (log_call (GetDocumentById COLLECTION i) w)\<lparr>next_addr := n2\<rparr>)"
  using assms by (simp add: getMovieById_found)

lemma getMovieById_uncloneable:
  assumes "fault w = None" and "find_doc i (collections w COLLECTION) = Some doc"
    and "fetched (client w) doc (next_addr w) = None"
  shows "getMovieById i w =
           (Inl DataCloneError,
            (log_call (GetDocumentById COLLECTION i) w)
              \<lparr>next_addr := Suc (snd (decode_fields (client w) (next_addr w) (data_fields doc)))\<rparr>)"
  using assms by (simp add: getMovieById_found)

lemma getMovieById_cases:
  obtains (failure) msg where "fault w = Some msg"
      and "getMovieById i w = (Inl (StoreFailure msg), log_call (GetDocumentById COLLECTION i) w)"
  | (absent) "fault w = None" and "find_doc i (collections w COLLECTION) = None"
      and "getMovieById i w = (Inl (not_found i), log_call (GetDocumentById COLLECTION i) w)"
  | (uncloneable) doc where "fault w = None"
      and "find_doc i (collections w COLLECTION) = Some doc"
      and "fetched (client w) doc (next_addr w) = None"
      and "getMovieById i w =
             (Inl DataCloneError,
              (log_call (GetDocumentById COLLECTION i) w)
                \<lparr>next_addr := Suc (snd (decode_fields (client w) (next_addr w) (data_fields doc)))\<rparr>)"
  | (present) doc m n2 where "fault w = None"
      and "find_doc i (collections w COLLECTION) = Some doc"
      and "fetched (client w) doc (next_addr w) = Some (m, n2)"
      and "getMovieById i w =
             (Inr m, (log_call (GetDocumentById COLLECTION i) w)\<lparr>next_addr := n2\<rparr>)"
proof (cases "fault w")
  case None
  show ?thesis
  proof (cases "find_doc i (collections w COLLECTION)")
    case N: None
    with None show ?thesis using absent getMovieById_absent by blast
  next
    case (Some doc)
    show ?thesis
    proof (cases "fetched (client w) doc (next_addr w)")
      case F: None
      with None Some show ?thesis using uncloneable getMovieById_uncloneable by blast
    next
      case (Some r)
      obtain m n2 where "r = (m, n2)" by (cases r)
      with None \<open>find_doc i (collections w COLLECTION) = Some doc\<close> Some
      show ?thesis using present getMovieById_resolves by blast
    qed
  qed
next
  case (Some msg)
  then show ?thesis using failure getMovieById_fault by blast
qed

section \<open>Running the service on the sample stores\<close>

lemmas run_defs =
  getAllMovies_def getMovieById_def createMovie_def updateMovie_def deleteMovie_def
  getDocuments_def getDocumentById_def createDocument_def updateDocument_def deleteDocument_def
  find_doc_def log_call_def movie_of_doc_def snapshot_data_def new_object_def new_Date_def
  structuredClone_def data_props_def data_fields_def spread_into_def merge_update_def
  assign_if_defined_def not_found_def COLLECTION_def
  world0_def world1_def movies0_def heat_fields_def dune_fields_def arrival_fields_def
  firestore_client_def title_only_def dune_input_def evil_input_def

lemma world0_fault: "fault world0 = None"
  by (simp add: world0_def)

lemma world0_movies: "collections world0 COLLECTION = movies0"
  by (simp add: world0_def COLLECTION_def)

lemma world0_absent: "''zz'' \<notin> doc_id ` set (collections world0 COLLECTION)"
  by (simp add: world0_movies movies0_def)

lemma world0_find:
  "find_doc ''m1'' (collections world0 COLLECTION) = Some \<lparr>doc_id = ''m1'', doc_data = Some dune_fields\<rparr>"
  "find_doc ''m2'' (collections world0 COLLECTION) = Some \<lparr>doc_id = ''m2'', doc_data = None\<rparr>"
  "find_doc ''m4'' (collections world0 COLLECTION) = Some \<lparr>doc_id = ''m4'', doc_data = Some heat_fields\<rparr>"
  by (simp_all add: world0_movies movies0_def find_doc_def)

lemma world0_ref_free:
  "data_ref_free \<lparr>doc_id = ''m1'', doc_data = Some dune_fields\<rparr>"
  "data_ref_free \<lparr>doc_id = ''m2'', doc_data = None\<rparr>"
  "data_ref_free \<lparr>doc_id = ''m4'', doc_data = Some heat_fields\<rparr>"
  by (simp_all add: data_ref_free_def data_fields_def dune_fields_def heat_fields_def)

lemma world1_fault: "fault world1 = None"
  by (simp add: world1_def)

lemma world1_find:
  "find_doc ''m5'' (collections world1 COLLECTION)
     = Some \<lparr>doc_id = ''m5'', doc_data = Some arrival_fields\<rparr>"
  by (simp add: world1_def COLLECTION_def find_doc_def)

section \<open>Reading: getAllMovies and getMovieById\<close>

lemma docs_map_client: "client (snd (docs_map docs w)) = client w"
  by (induction docs arbitrary: w) (simp_all add: movie_of_doc_eq case_prod_beta)

lemma docs_map_objects:
  "list_all2 (\<lambda>movie doc. \<exists>a ps. movie = JObj a ps
        \<and> content_props ps = content_props (movie_literal (client w) doc))
     (fst (docs_map docs w)) docs"
proof (induction docs arbitrary: w)
  case Nil
  then show ?case by simp
next
  case (Cons doc docs)
  let ?w1 = "snd (movie_of_doc doc w)"
  have c: "client ?w1 = client w" by (simp add: movie_of_doc_eq)
  have h: "\<exists>a ps. fst (movie_of_doc doc w) = JObj a ps
      \<and> content_props ps = content_props (movie_literal (client w) doc)"
    using decode_content(3)[of "client w" "next_addr w" "data_fields doc" 0]
    by (simp add: movie_of_doc_eq movie_literal_def content_spread_into)
  from Cons.IH[of ?w1] c h show ?case by (simp add: case_prod_beta)
qed

lemma getAllMovies_one_per_document:
  assumes "fault w = None"
  shows "\<exists>movies. fst (getAllMovies w) = Inr movies
       \<and> list_all2 (\<lambda>movie doc. \<exists>a ps. movie = JObj a ps
              \<and> content_props ps = content_props (movie_literal (client w) doc))
            movies (collections w COLLECTION)"
  using assms docs_map_objects[of "log_call (GetDocuments COLLECTION) w" "collections w COLLECTION"]
  by (simp add: getAllMovies_def getDocuments_def case_prod_beta log_call_def)

lemma movie_literal_id:
  assumes "''id'' \<notin> fst ` set (data_fields doc)"
  shows "map_of (movie_literal c doc) ''id'' = Some (JStr (doc_id doc))"
proof -
  let ?ps = "fst (decode_fields c 0 (data_fields doc))"
  have "fst ` set ?ps = fst ` set (data_fields doc)"
    using decode_names[of c 0 "data_fields doc"] by (metis set_map)
  with assms have "''id'' \<notin> fst ` set (rev ?ps)" by simp
  then have "map_of (rev ?ps) ''id'' = None"
    by (simp add: map_of_eq_None_iff)
  then show ?thesis
    by (simp add: movie_literal_def map_of_spread_into map_add_def)
qed

text \<open>
  What holds of \<^verbatim>\<open>getAllMovies\<close> for every store: when the store answers, the result
  has one object per document, in the order of the store, and each object has the content
  of the literal \<^verbatim>\<open>{ id: doc.id, ...data }\<close> (\<open>getAllMovies_one_per_document\<close>). Its
  \<^verbatim>\<open>id\<close> is the key of the document when the data has no \<^verbatim>\<open>id\<close> field
  (\<open>movie_literal_id\<close>).

  Claim C1: every Movie read from the store (by \<^verbatim>\<open>getAllMovies\<close> or \<^verbatim>\<open>getMovieById\<close>)
  has the key of its document as \<^verbatim>\<open>id\<close>, whatever the document holds, also when the
  stored data has an \<^verbatim>\<open>id\<close> field of its own.

  The code does not do that. In \<^verbatim>\<open>{ id: doc.id, ...data }\<close> the data is spread after
  \<^verbatim>\<open>id\<close>, so a stored \<^verbatim>\<open>id\<close> field replaces the key. On the sample store the document
  with key \<^verbatim>\<open>m3\<close> holds \<^verbatim>\<open>id: "m1"\<close>: both operations return it with \<^verbatim>\<open>id\<close> equal to
  \<^verbatim>\<open>"m1"\<close>, and \<^verbatim>\<open>getAllMovies\<close> returns two movies with the same \<^verbatim>\<open>id\<close>.
\<close>

theorem stored_id_field_replaces_document_key:
  "map doc_id (collections world0 COLLECTION) = [''m1'', ''m2'', ''m3'', ''m4'']
 \<and> map_sum id (map (get_prop ''id'')) (fst (getAllMovies world0))
      = Inr [JStr ''m1'', JStr ''m2'', JStr ''m1'', JStr ''m4'']
 \<and> fst (getMovieById ''m3'' world0)
      = Inr (JObj 11 [(''id'', JStr ''m1''), (''title'', JStr ''Alien'')])"
  by (simp add: run_defs)

text \<open>
  Claim C9: whenever \<^verbatim>\<open>getMovieById\<close> resolves, its result is a plain object, and an
  object is truthy; so the test \<^verbatim>\<open>!movie\<close> that \<^verbatim>\<open>updateMovie\<close> and \<^verbatim>\<open>deleteMovie\<close>
  make on that result is never true and their second \<^verbatim>\<open>throw\<close> is never reached.
\<close>

theorem getMovieById_resolves_to_object:
  "fst (getMovieById i w) = Inr movie \<Longrightarrow> truthy movie \<and> (\<exists>a ps. movie = JObj a ps)"
proof (cases i w rule: getMovieById_cases)
  case (failure msg)
  assume "fst (getMovieById i w) = Inr movie"
  with failure show ?thesis by simp
next
  case absent
  assume "fst (getMovieById i w) = Inr movie"
  with absent show ?thesis by simp
next
  case (uncloneable doc)
  assume "fst (getMovieById i w) = Inr movie"
  with uncloneable show ?thesis by simp
next
  case (present doc m n2)
  assume "fst (getMovieById i w) = Inr movie"
  with present have "movie = m" by simp
  then show ?thesis using fetched_obj[OF present(3)] by auto
qed

theorem getMovieById_resolves_to_object_witness:
  "fst (getMovieById ''m2'' world0) = Inr (JObj 11 [(''id'', JStr ''m2'')])
 \<and> truthy (JObj 11 [(''id'', JStr ''m2'')])
 \<and> (\<exists>a ps. JObj 11 [(''id'', JStr ''m2'')] = JObj a ps)"
proof -
  have r: "fst (getMovieById ''m2'' world0) = Inr (JObj 11 [(''id'', JStr ''m2'')])"
    by (simp add: run_defs)
  from getMovieById_resolves_to_object[OF r] r show ?thesis by blast
qed

lemma truthy_fetched: "fetched c doc n = Some (m, n2) \<Longrightarrow> truthy m"
  using fetched_obj by fastforce

text \<open>
  So the second existence check changes nothing: each of the two functions is equal to
  itself without the test.
\<close>

lemma updateMovie_check_unreachable:
  "updateMovie i movieData w =
     (case getMovieById i w of
        (Inl e, w1) \<Rightarrow> (Inl e, w1)
      | (Inr movie, w1) \<Rightarrow>
          (case updateDocument COLLECTION i (merge_update movieData movie) w1 of
             (Inl e, w2) \<Rightarrow> (Inl e, w2)
           | (Inr u, w2) \<Rightarrow> structuredClone (merge_update movieData movie) w2))"
  by (cases i w rule: getMovieById_cases) (simp_all add: updateMovie_def truthy_fetched Let_def)

lemma deleteMovie_check_unreachable:
  "deleteMovie i w =
     (case getMovieById i w of
        (Inl e, w1) \<Rightarrow> (Inl e, w1)
      | (Inr movie, w1) \<Rightarrow> deleteDocument COLLECTION i w1)"
  by (cases i w rule: getMovieById_cases) (simp_all add: deleteMovie_def truthy_fetched)

text \<open>
  Claim C10: whether \<^verbatim>\<open>getMovieById\<close> fails with NotFound depends on the snapshot
  alone. When the store answers with a snapshot whose \<^verbatim>\<open>data()\<close> is \<^verbatim>\<open>undefined\<close>, the
  call does not fail: it returns an object whose only property is \<^verbatim>\<open>id\<close>.
\<close>

theorem getMovieById_document_without_data:
  assumes "fault w = None"
    and "find_doc i (collections w COLLECTION) = Some doc"
    and "doc_data doc = None"
  shows "fst (getMovieById i w) = Inr (JObj (Suc (next_addr w)) [(''id'', JStr i)])"
proof -
  from assms(2) have "doc_id doc = i" by (rule find_doc_Some_id)
  with assms(3) have "fetched (client w) doc (next_addr w)
      = Some (JObj (Suc (next_addr w)) [(''id'', JStr i)], Suc (Suc (next_addr w)))"
    by (simp add: fetched_def data_fields_def spread_into_def)
  from getMovieById_resolves[OF assms(1,2) this] show ?thesis by simp
qed

theorem getMovieById_document_without_data_witness:
  "fault world0 = None
 \<and> find_doc ''m2'' (collections world0 COLLECTION) = Some \<lparr>doc_id = ''m2'', doc_data = None\<rparr>
 \<and> doc_data \<lparr>doc_id = ''m2'', doc_data = None\<rparr> = None
 \<and> fst (getMovieById ''m2'' world0) = Inr (JObj 11 [(''id'', JStr ''m2'')])"
  using getMovieById_document_without_data[OF world0_fault world0_find(2)]
    world0_fault world0_find(2)
  by (simp add: world0_def)


section \<open>Creating\<close>

text \<open>
  Claim C3: \<^verbatim>\<open>createMovie\<close> persists the fields of its argument with a \<^verbatim>\<open>createdAt\<close>
  of the service, and returns a Movie made of the key that the store assigned, as
  \<^verbatim>\<open>id\<close>, and those fields.

  The code does not return the assigned key when the argument has an own property
  \<^verbatim>\<open>id\<close>, which the declared type \<^verbatim>\<open>{title, description, genre, rating?}\<close> of the
  parameter admits (an object type admits further properties). In
  \<^verbatim>\<open>{ id: movieId, ...newMovie }\<close> the record is spread after \<^verbatim>\<open>id\<close>, as in the
  literal of the two reading operations. On the sample store the new document gets the
  key \<^verbatim>\<open>kkkkk\<close>; the Movie returned has \<^verbatim>\<open>id\<close> equal to \<^verbatim>\<open>"evil"\<close>, the value of the
  argument, which is stored as a field of the document as well. (\<^verbatim>\<open>createdAt\<close> is
  defined after the spread of the argument, so there the value of the service wins.)
\<close>

theorem createMovie_own_id_replaces_assigned_key:
  "assign_key world0 (collections world0 COLLECTION) = ''kkkkk''
 \<and> fst (createMovie evil_input world0)
      = Inr (JObj 13 [(''id'', JStr ''evil''), (''title'', JStr ''Dune''),
                      (''description'', JStr ''Desert planet''), (''genre'', JStr ''Sci-Fi''),
                      (''createdAt'', JDate 14 5000)])
 \<and> collections (snd (createMovie evil_input world0)) COLLECTION
      = movies0 @ [\<lparr>doc_id = ''kkkkk'',
                    doc_data = Some [(''title'', FStr ''Dune''),
                      (''description'', FStr ''Desert planet''), (''genre'', FStr ''Sci-Fi''),
                      (''id'', FStr ''evil''), (''createdAt'', FTimestamp 5 0)]\<rparr>]"
  by (simp add: run_defs Let_def)


lemma map_of_rev_distinct:
  assumes "distinct (map fst xs)"
  shows "map_of (rev xs) = map_of xs"
proof -
  from assms have "distinct (map fst (rev xs))" by (simp add: rev_map[symmetric])
  with assms show ?thesis by (simp add: map_of_inject_set)
qed

lemma names_list_set_prop:
  "map fst (set_prop k v ps) = (if k \<in> fst ` set ps then map fst ps else map fst ps @ [k])"
  by (induction ps) force+

lemma distinct_set_prop: "distinct (map fst ps) \<Longrightarrow> distinct (map fst (set_prop k v ps))"
  by (simp add: names_list_set_prop)

lemma distinct_spread_into:
  "distinct (map fst target) \<Longrightarrow> distinct (map fst (spread_into src target))"
  unfolding spread_into_def
  by (induction src arbitrary: target) (simp_all add: distinct_set_prop)

lemma names_content_props: "map fst (content_props ps) = map fst ps"
  by (induction ps) auto

lemma plain_data_props_iff: "plain_data_props ps \<longleftrightarrow> (\<forall>kv \<in> set ps. plain_data (snd kv))"
  by (induction ps) auto

lemma plain_data_cloneable:
  "plain_data v \<Longrightarrow> cloneable v"
  "plain_data_list xs \<Longrightarrow> cloneable_list xs"
  "plain_data_props ps \<Longrightarrow> cloneable_props ps"
  by (induction v and xs and ps rule: plain_data_plain_data_list_plain_data_props.induct) auto

lemma plain_data_encode:
  "plain_data v \<Longrightarrow> \<exists>f. encode v = Some f"
  "plain_data_list xs \<Longrightarrow> \<exists>fs. encode_list xs = Some fs"
  "plain_data_props ps \<Longrightarrow> \<exists>fs. encode_props ps = Some fs"
  by (induction v and xs and ps rule: plain_data_plain_data_list_plain_data_props.induct) auto

lemma plain_data_spread_into:
  "plain_data_props src \<Longrightarrow> plain_data_props target \<Longrightarrow> plain_data_props (spread_into src target)"
  using set_spread_into[of src target] by (fastforce simp: plain_data_props_iff)

text \<open>
  What holds of \<^verbatim>\<open>createMovie\<close> when the store answers, the own properties of the
  argument are plain data and none of them is \<^verbatim>\<open>id\<close>: the result has the assigned key
  as \<^verbatim>\<open>id\<close>, a Date of the clock as \<^verbatim>\<open>createdAt\<close> (whatever the argument had under
  that name) and the content of the argument elsewhere; the new document holds the same
  fields without \<^verbatim>\<open>id\<close>.
\<close>

lemma createMovie_without_own_id:
  assumes "fault w = None" and "plain_data_props movieData" and "''id'' \<notin> fst ` set movieData"
  shows "\<exists>movie stored.
           fst (createMovie movieData w) = Inr movie
         \<and> get_prop ''id'' movie = JStr (assign_key w (collections w COLLECTION))
         \<and> content (get_prop ''createdAt'' movie) = JDate 0 (clock w)
         \<and> (\<forall>k. k \<noteq> ''id'' \<and> k \<noteq> ''createdAt'' \<longrightarrow>
               content (get_prop k movie) = content (get_prop k (JObj 0 (spread_into movieData []))))
         \<and> collections (snd (createMovie movieData w)) COLLECTION =
             collections w COLLECTION
             @ [\<lparr>doc_id = assign_key w (collections w COLLECTION), doc_data = Some stored\<rparr>]
         \<and> encode_props (set_prop ''createdAt'' (JDate 0 (clock w)) (spread_into movieData []))
             = Some stored"
proof -
  let ?n = "next_addr w"
  let ?key = "assign_key w (collections w COLLECTION)"
  let ?X = "spread_into movieData []"
  let ?N = "set_prop ''createdAt'' (JDate ?n (clock w)) ?X"
  let ?L = "spread_into ?N [(''id'', JStr ?key)]"
  have pX: "plain_data_props ?X" using assms(2) by (simp add: plain_data_spread_into)
  from plain_data_encode(3)[OF pX] obtain F where F: "encode_props ?X = Some F" by blast
  let ?stored = "set_prop ''createdAt'' (FTimestamp (clock w div 1000) ((clock w mod 1000) * 1000000)) F"
  have eN: "encode_props ?N = Some ?stored" by (rule encode_set_prop[OF F]) simp
  have e0: "encode_props (set_prop ''createdAt'' (JDate 0 (clock w)) ?X) = Some ?stored"
    by (rule encode_set_prop[OF F]) simp
  have cN: "cloneable_props ?N"
    using plain_data_cloneable(3)[OF pX] by (simp add: cloneable_set_prop)
  then have "cloneable (JObj (Suc (Suc ?n)) ?L)" by (simp add: cloneable_spread_into)
  from clone_cloneable(1)[OF this, of "Suc (Suc (Suc ?n))"] obtain movie n5 where
    c: "clone (Suc (Suc (Suc ?n))) (JObj (Suc (Suc ?n)) ?L) = Some (movie, n5)" by auto
  have r: "fst (createMovie movieData w) = Inr movie"
    and st: "collections (snd (createMovie movieData w)) COLLECTION =
             collections w COLLECTION @ [\<lparr>doc_id = ?key, doc_data = Some ?stored\<rparr>]"
    using assms(1) eN c
    by (simp_all add: createMovie_def new_Date_def new_object_def createDocument_def log_call_def
        Let_def structuredClone_def del: clone.simps)
  from clone_obj[OF c] obtain qs where m: "movie = JObj (Suc (Suc (Suc ?n))) qs" by blast
  let ?A = "set_prop ''createdAt'' (JDate 0 (clock w)) (content_props ?X)"
  have cm: "content movie = JObj 0 (spread_into ?A [(''id'', JStr ?key)])"
    using clone_content(1)[OF c] by (simp add: content_spread_into content_set_prop)
  have dA: "distinct (map fst ?A)"
    by (simp add: distinct_set_prop names_content_props distinct_spread_into)
  have look: "map_of (spread_into ?A [(''id'', JStr ?key)]) k
      = (case map_of ?A k of Some v \<Rightarrow> Some v
         | None \<Rightarrow> if k = ''id'' then Some (JStr ?key) else None)" for k
    by (simp add: map_of_spread_into map_of_rev_distinct[OF dA] map_add_def split: option.splits)
  have nA: "fst ` set ?A = insert ''createdAt'' (fst ` set movieData)"
  proof -
    have "fst ` set (content_props ?X) = fst ` set ?X"
      using names_content_props[of ?X] by (metis set_map)
    then show ?thesis by (simp add: names_set_prop names_spread_into)
  qed
  have gk: "content (get_prop k movie) = (case map_of (spread_into ?A [(''id'', JStr ?key)]) k of
        Some v \<Rightarrow> v | None \<Rightarrow> JUndefined)" for k
  proof -
    have "content (get_prop k movie) = get_prop k (content movie)"
      unfolding m by (rule get_prop_content[symmetric])
    then show ?thesis by (simp add: cm)
  qed
  have idA: "map_of ?A ''id'' = None"
    using assms(3) nA by (simp add: map_of_eq_None_iff)
  have i1: "content (get_prop ''id'' movie) = JStr ?key"
    by (simp add: gk look idA)
  have i2: "get_prop ''id'' movie = JStr ?key"
  proof (cases "get_prop ''id'' movie")
    case (JStr s)
    with i1 show ?thesis by simp
  qed (use i1 in simp_all)
  have cr: "content (get_prop ''createdAt'' movie) = JDate 0 (clock w)"
    by (simp add: gk look map_of_set_prop)
  have ot: "content (get_prop k movie) = content (get_prop k (JObj 0 ?X))"
    if "k \<noteq> ''id'' \<and> k \<noteq> ''createdAt''" for k
    using that
    by (simp add: gk look map_of_set_prop map_of_content_props split: option.splits)
  from r i2 cr ot st e0 show ?thesis by blast
qed

lemma createMovie_without_own_id_example:
  "fst (createMovie dune_input world0)
     = Inr (JObj 13 [(''id'', JStr ''kkkkk''), (''title'', JStr ''Dune''),
                     (''description'', JStr ''Desert planet''), (''genre'', JStr ''Sci-Fi''),
                     (''rating'', JNum (17 / 2)), (''createdAt'', JDate 14 5000)])"
  by (simp add: run_defs Let_def)

section \<open>Updating\<close>

lemma merge_update_obj: "\<exists>qs'. merge_update md (JObj a qs) = JObj a qs'"
  by (cases "up_title md"; cases "up_description md"; cases "up_genre md")
     (simp_all add: merge_update_def assign_if_defined_def)


lemma cloneable_merge_update:
  "cloneable_props qs \<Longrightarrow> cloneable (merge_update md (JObj a qs))"
  by (cases "up_title md"; cases "up_description md"; cases "up_genre md")
     (simp_all add: merge_update_def assign_if_defined_def cloneable_set_prop)

lemma content_merge_update:
  "content (merge_update md (JObj a qs)) = merge_update md (JObj 0 (content_props qs))"
  by (cases "up_title md"; cases "up_description md"; cases "up_genre md")
     (simp_all add: merge_update_def assign_if_defined_def content_set_prop)

lemma encode_merge_update:
  assumes "encode_props qs = Some F"
  shows "\<exists>G. encode_props (props_of (merge_update md (JObj a qs))) = Some G
       \<and> (\<forall>k. map_of G k =
            (if k = ''title'' then
               (case up_title md of Some s \<Rightarrow> Some (FStr s) | None \<Rightarrow> map_of F k)
             else if k = ''description'' then
               (case up_description md of Some s \<Rightarrow> Some (FStr s) | None \<Rightarrow> map_of F k)
             else if k = ''genre'' then
               (case up_genre md of Some s \<Rightarrow> Some (FStr s) | None \<Rightarrow> map_of F k)
             else map_of F k))
       \<and> fst ` set F \<subseteq> fst ` set G"
  using assms
  by (cases "up_title md"; cases "up_description md"; cases "up_genre md")
     (auto simp: merge_update_def assign_if_defined_def encode_set_prop map_of_set_prop
        names_set_prop)

lemma encode_merge_update_cong:
  assumes "encode_props qs = Some F" and "encode_props qs' = Some F"
  shows "encode_props (props_of (merge_update md (JObj a qs)))
       = encode_props (props_of (merge_update md (JObj b qs')))"
  using assms
  by (cases "up_title md"; cases "up_description md"; cases "up_genre md")
     (simp_all add: merge_update_def assign_if_defined_def encode_set_prop)

text \<open>
  The run of \<^verbatim>\<open>updateMovie\<close> on a document that is found and can be cloned: the record
  read, the fields written, the record returned.
\<close>

lemma updateMovie_present:
  assumes "fault w = None" and "find_doc i (collections w COLLECTION) = Some doc"
    and "data_ref_free doc"
  shows "\<exists>before n2 stored after n3.
           fetched (client w) doc (next_addr w) = Some (before, n2)
         \<and> encode_props (props_of (merge_update movieData before)) = Some stored
         \<and> clone n2 (merge_update movieData before) = Some (after, n3)
         \<and> encode_props (props_of after) = Some stored
         \<and> fst (updateMovie i movieData w) = Inr after
         \<and> collections (snd (updateMovie i movieData w)) =
             (collections w)
               (COLLECTION :=
                  map (\<lambda>d. if doc_id d = i then d\<lparr>doc_data := Some stored\<rparr> else d)
                    (collections w COLLECTION))
         \<and> calls (snd (updateMovie i movieData w)) =
             calls w @ [GetDocumentById COLLECTION i, UpdateDocument COLLECTION i]
         \<and> next_addr (snd (updateMovie i movieData w)) = n3"
proof -
  from fetched_ref_free[OF assms(3)] obtain before n2 where
    f: "fetched (client w) doc (next_addr w) = Some (before, n2)" by blast
  from fetched_obj[OF f] obtain a qs where b: "before = JObj a qs" by blast
  from fetched_encode[OF assms(3) f] have e: "encode_props qs = Some (literal_fields doc)"
    by (simp add: b)
  from encode_merge_update[OF e, of movieData a] obtain stored where
    s: "encode_props (props_of (merge_update movieData before)) = Some stored"
    by (auto simp: b)
  from fetched_cloneable[OF f] have "cloneable (merge_update movieData before)"
    by (simp add: b cloneable_merge_update)
  from clone_cloneable(1)[OF this, of n2] obtain after n3 where
    c: "clone n2 (merge_update movieData before) = Some (after, n3)" by auto
  obtain ms where ms: "merge_update movieData before = JObj a ms"
    using merge_update_obj[of movieData a qs] b by auto
  from c ms obtain rs where after: "after = JObj n2 rs"
    and cr: "clone_props (Suc n2) ms = Some (rs, n3)"
    by (auto split: option.splits)
  have ec: "encode_props (content_props qs) = Some (literal_fields doc)"
  proof -
    from f b have "clone (Suc (snd (decode_fields (client w) (next_addr w) (data_fields doc))))
        (JObj (snd (decode_fields (client w) (next_addr w) (data_fields doc)))
           (spread_into (fst (decode_fields (client w) (next_addr w) (data_fields doc)))
              [(''id'', JStr (doc_id doc))])) = Some (JObj a qs, n2)"
      by (simp add: fetched_def case_prod_beta)
    then obtain m where "clone_props m
        (spread_into (fst (decode_fields (client w) (next_addr w) (data_fields doc)))
              [(''id'', JStr (doc_id doc))]) = Some (qs, n2)"
      by (auto split: option.splits)
    from clone_result_encode(3)[OF this] e show ?thesis by simp
  qed
  have "encode_props rs = encode_props (content_props ms)"
    using clone_encode(3)[OF cr] .
  also have "content_props ms = props_of (merge_update movieData (JObj 0 (content_props qs)))"
  proof -
    have "merge_update movieData (JObj 0 (content_props qs)) = content (JObj a ms)"
      using content_merge_update[of movieData a qs] ms b by simp
    then show ?thesis by simp
  qed
  also have "encode_props (props_of (merge_update movieData (JObj 0 (content_props qs))))
      = encode_props (props_of (merge_update movieData (JObj a qs)))"
    by (rule encode_merge_update_cong[OF ec e])
  finally have ea: "encode_props (props_of after) = Some stored"
    using s by (simp add: after b)
  have g: "getMovieById i w =
      (Inr before, (log_call (GetDocumentById COLLECTION i) w)\<lparr>next_addr := n2\<rparr>)"
    by (rule getMovieById_resolves[OF assms(1,2) f])
  have t: "truthy before" by (simp add: b)
  let ?w1 = "(log_call (GetDocumentById COLLECTION i) w)\<lparr>next_addr := n2\<rparr>"
  have f1: "fault ?w1 = None" using assms(1) by (simp add: log_call_def)
  have u: "updateMovie i movieData w =
      structuredClone (merge_update movieData before)
        (snd (updateDocument COLLECTION i (merge_update movieData before) ?w1))"
    using g t updateDocument_ok[OF f1 s, of COLLECTION i]
    by (simp add: updateMovie_def Let_def)
  have r: "fst (updateMovie i movieData w) = Inr after"
    and co: "collections (snd (updateMovie i movieData w)) =
             (collections w)
               (COLLECTION :=
                  map (\<lambda>d. if doc_id d = i then d\<lparr>doc_data := Some stored\<rparr> else d)
                    (collections w COLLECTION))"
    and ca: "calls (snd (updateMovie i movieData w)) =
             calls w @ [GetDocumentById COLLECTION i, UpdateDocument COLLECTION i]"
    and na: "next_addr (snd (updateMovie i movieData w)) = n3"
    unfolding u using updateDocument_ok[OF f1 s, of COLLECTION i] c
    by (simp_all add: structuredClone_def log_call_def)
  from f s c ea r co ca na show ?thesis by blast
qed

text \<open>
  Claim C5: when the store answers and no document of the movies collection has the key,
  \<^verbatim>\<open>updateMovie\<close> fails with the NotFound error of that id, every collection of the
  store is as before, and the only call made to the repository is the read
  \<^verbatim>\<open>getDocumentById\<close>: there is no write.
\<close>

theorem updateMovie_absent_fails_without_write:
  assumes "fault w = None" and "i \<notin> doc_id ` set (collections w COLLECTION)"
  shows "fst (updateMovie i movieData w) = Inl (not_found i)
       \<and> collections (snd (updateMovie i movieData w)) = collections w
       \<and> calls (snd (updateMovie i movieData w)) = calls w @ [GetDocumentById COLLECTION i]"
proof -
  from assms(2) have "find_doc i (collections w COLLECTION) = None"
    by (simp add: find_doc_None_iff)
  with assms(1) show ?thesis
    by (simp add: updateMovie_def getMovieById_absent log_call_def)
qed

theorem updateMovie_absent_fails_without_write_witness:
  "fault world0 = None
 \<and> ''zz'' \<notin> doc_id ` set (collections world0 COLLECTION)
 \<and> fst (updateMovie ''zz'' title_only world0) = Inl (Error ''Movie with ID zz not found'')
 \<and> collections (snd (updateMovie ''zz'' title_only world0)) = collections world0
 \<and> calls (snd (updateMovie ''zz'' title_only world0)) = [GetDocumentById ''movies'' ''zz'']"
  using updateMovie_absent_fails_without_write[OF world0_fault world0_absent, of title_only]
    world0_fault world0_absent
  by (simp add: not_found_def) (simp add: world0_def COLLECTION_def)







text \<open>
  Claim C7, as stated: for every existing id \<^verbatim>\<open>updateMovie\<close> overwrites the stored
  document with the merged object, so that the fields of the stored document outside the
  Movie shape are dropped.

  The second half fails. The cast \<^verbatim>\<open>as Movie\<close> filters nothing: the record that
  \<^verbatim>\<open>getMovieById\<close> reads has every field of the document, and all of them are written
  back. On the sample store the document \<^verbatim>\<open>m4\<close> has the field \<^verbatim>\<open>director\<close>, which is
  not of the Movie shape, and still has it after \<^verbatim>\<open>updateMovie("m4", {title: "X"})\<close>;
  the write adds the field \<^verbatim>\<open>id\<close>. The first half fails on a document that
  \<^verbatim>\<open>structuredClone\<close> cannot copy: the document \<^verbatim>\<open>m5\<close> of the second store is not
  overwritten, the call throws \<^verbatim>\<open>DataCloneError\<close> before any write.
\<close>

theorem updateMovie_keeps_field_outside_shape:
  "stored_names ''m4'' world0 = [''title'', ''director'', ''cast'']
 \<and> ''director'' \<notin> set movie_shape
 \<and> stored_names ''m4'' (snd (updateMovie ''m4'' title_only world0))
      = [''id'', ''title'', ''director'', ''cast'']
 \<and> stored_names ''m5'' world1 = [''title'', ''studio'']
 \<and> fst (updateMovie ''m5'' title_only world1) = Inl DataCloneError
 \<and> stored_names ''m5'' (snd (updateMovie ''m5'' title_only world1)) = [''title'', ''studio'']"
  by (simp add: stored_names_def movie_shape_def run_defs)

lemma names_written_back: "map fst (written_back_fields fs) = map fst fs"
  by (induction fs) auto

lemma names_literal_fields:
  "fst ` set (literal_fields doc) = insert ''id'' (fst ` set (data_fields doc))"
proof -
  have "fst ` set (written_back_fields (data_fields doc)) = fst ` set (data_fields doc)"
    using names_written_back[of "data_fields doc"] by (metis set_map)
  then show ?thesis by (simp add: literal_fields_def names_spread_into)
qed

text \<open>
  Claim C7, amended: when the store answers, the document exists and its data holds no
  reference to a document, \<^verbatim>\<open>updateMovie\<close> overwrites the data of the stored document
  with the merged object (the record read by \<^verbatim>\<open>getMovieById\<close> with the defined fields
  of the argument assigned). For every name the stored field is then the defined field of
  the argument, or else the field of \<^verbatim>\<open>{ id: doc.id, ...doc.data() }\<close> as the store takes
  it back after the clone; so no stored field is dropped and \<^verbatim>\<open>id\<close> becomes a stored
  field.
\<close>

theorem updateMovie_overwrites_with_merged_object:
  assumes "fault w = None" and "find_doc i (collections w COLLECTION) = Some doc"
    and "data_ref_free doc"
  shows "\<exists>before stored.
           fst (getMovieById i w) = Inr before
         \<and> find_doc i (collections (snd (updateMovie i movieData w)) COLLECTION)
             = Some \<lparr>doc_id = i, doc_data = Some stored\<rparr>
         \<and> encode_props (props_of (merge_update movieData before)) = Some stored
         \<and> (\<forall>k. map_of stored k =
                (if k = ''title'' then
                   (case up_title movieData of
                      Some s \<Rightarrow> Some (FStr s) | None \<Rightarrow> map_of (literal_fields doc) k)
                 else if k = ''description'' then
                   (case up_description movieData of
                      Some s \<Rightarrow> Some (FStr s) | None \<Rightarrow> map_of (literal_fields doc) k)
                 else if k = ''genre'' then
                   (case up_genre movieData of
                      Some s \<Rightarrow> Some (FStr s) | None \<Rightarrow> map_of (literal_fields doc) k)
                 else map_of (literal_fields doc) k))
         \<and> insert ''id'' (fst ` set (data_fields doc)) \<subseteq> fst ` set stored"
proof -
  from updateMovie_present[OF assms, of movieData] obtain before n2 stored where
    f: "fetched (client w) doc (next_addr w) = Some (before, n2)" and
    s: "encode_props (props_of (merge_update movieData before)) = Some stored" and
    co: "collections (snd (updateMovie i movieData w)) =
             (collections w)
               (COLLECTION :=
                  map (\<lambda>d. if doc_id d = i then d\<lparr>doc_data := Some stored\<rparr> else d)
                    (collections w COLLECTION))"
    by blast
  from fetched_obj[OF f] obtain a qs where b: "before = JObj a qs" by blast
  from fetched_encode[OF assms(3) f] have e: "encode_props qs = Some (literal_fields doc)"
    by (simp add: b)
  from encode_merge_update[OF e, of movieData a] s b
  have m: "\<forall>k. map_of stored k =
                (if k = ''title'' then
                   (case up_title movieData of
                      Some s \<Rightarrow> Some (FStr s) | None \<Rightarrow> map_of (literal_fields doc) k)
                 else if k = ''description'' then
                   (case up_description movieData of
                      Some s \<Rightarrow> Some (FStr s) | None \<Rightarrow> map_of (literal_fields doc) k)
                 else if k = ''genre'' then
                   (case up_genre movieData of
                      Some s \<Rightarrow> Some (FStr s) | None \<Rightarrow> map_of (literal_fields doc) k)
                 else map_of (literal_fields doc) k)"
    and n: "fst ` set (literal_fields doc) \<subseteq> fst ` set stored"
    by auto
  have g: "fst (getMovieById i w) = Inr before"
    using getMovieById_resolves[OF assms(1,2) f] by simp
  have st: "find_doc i (collections (snd (updateMovie i movieData w)) COLLECTION)
             = Some \<lparr>doc_id = i, doc_data = Some stored\<rparr>"
    using find_doc_overwrite[OF assms(2), of "Some stored"] find_doc_Some_id[OF assms(2)]
    by (simp add: co)
  from n have n': "insert ''id'' (fst ` set (data_fields doc)) \<subseteq> fst ` set stored"
    by (simp only: names_literal_fields)
  from g st s m n' show ?thesis by blast
qed

theorem updateMovie_overwrites_with_merged_object_witness:
  "fault world0 = None
 \<and> find_doc ''m4'' (collections world0 COLLECTION)
      = Some \<lparr>doc_id = ''m4'', doc_data = Some heat_fields\<rparr>
 \<and> data_ref_free \<lparr>doc_id = ''m4'', doc_data = Some heat_fields\<rparr>
 \<and> (\<exists>before stored.
        fst (getMovieById ''m4'' world0) = Inr before
      \<and> find_doc ''m4'' (collections (snd (updateMovie ''m4'' title_only world0)) COLLECTION)
          = Some \<lparr>doc_id = ''m4'', doc_data = Some stored\<rparr>
      \<and> encode_props (props_of (merge_update title_only before)) = Some stored
      \<and> map_of stored ''id'' = Some (FStr ''m4'')
      \<and> map_of stored ''title'' = Some (FStr ''X'')
      \<and> map_of stored ''director'' = Some (FStr ''Mann'')
      \<and> map_of stored ''cast'' = Some (FArr [FStr ''Pacino''])
      \<and> {''id'', ''title'', ''director'', ''cast''} \<subseteq> fst ` set stored)"
proof -
  let ?doc = "\<lparr>doc_id = ''m4'', doc_data = Some heat_fields\<rparr>"
  have l: "literal_fields ?doc =
      [(''id'', FStr ''m4''), (''title'', FStr ''Heat''), (''director'', FStr ''Mann''),
       (''cast'', FArr [FStr ''Pacino''])]"
    by (simp add: literal_fields_def data_fields_def heat_fields_def spread_into_def)
  from updateMovie_overwrites_with_merged_object
    [OF world0_fault world0_find(3) world0_ref_free(3), of title_only]
  obtain before stored where
    g: "fst (getMovieById ''m4'' world0) = Inr before" and
    s: "find_doc ''m4'' (collections (snd (updateMovie ''m4'' title_only world0)) COLLECTION)
          = Some \<lparr>doc_id = ''m4'', doc_data = Some stored\<rparr>" and
    e: "encode_props (props_of (merge_update title_only before)) = Some stored" and
    m: "\<And>k. map_of stored k =
                (if k = ''title'' then
                   (case up_title title_only of
                      Some s \<Rightarrow> Some (FStr s) | None \<Rightarrow> map_of (literal_fields ?doc) k)
                 else if k = ''description'' then
                   (case up_description title_only of
                      Some s \<Rightarrow> Some (FStr s) | None \<Rightarrow> map_of (literal_fields ?doc) k)
                 else if k = ''genre'' then
                   (case up_genre title_only of
                      Some s \<Rightarrow> Some (FStr s) | None \<Rightarrow> map_of (literal_fields ?doc) k)
                 else map_of (literal_fields ?doc) k)" and
    n: "insert ''id'' (fst ` set (data_fields ?doc)) \<subseteq> fst ` set stored"
    by blast
  have "map_of stored ''id'' = Some (FStr ''m4'')"
    and "map_of stored ''title'' = Some (FStr ''X'')"
    and "map_of stored ''director'' = Some (FStr ''Mann'')"
    and "map_of stored ''cast'' = Some (FArr [FStr ''Pacino''])"
    by (simp_all add: m l title_only_def)
  moreover from n have "{''id'', ''title'', ''director'', ''cast''} \<subseteq> fst ` set stored"
    by (simp add: data_fields_def heat_fields_def)
  ultimately show ?thesis
    using g s e world0_fault world0_find(3) world0_ref_free(3) by blast
qed

section \<open>Deleting\<close>




section \<open>Failures of the store\<close>

lemma store_failure_propagates:
  assumes "fault w = Some msg"
  shows "fst (getAllMovies w) = Inl (StoreFailure msg)"
    and "fst (getMovieById i w) = Inl (StoreFailure msg)"
    and "fst (createMovie movieData w) = Inl (StoreFailure msg)"
    and "fst (updateMovie i changes w) = Inl (StoreFailure msg)"
    and "fst (deleteMovie i w) = Inl (StoreFailure msg)"
  using assms
  by (simp_all add: getAllMovies_def getDocuments_def getMovieById_fault createMovie_def
      new_Date_def new_object_def createDocument_def updateMovie_def deleteMovie_def)

section \<open>Which objects a result is made of\<close>

lemma structuredClone_fresh:
  "structuredClone v w = (Inr v', w') \<Longrightarrow> addrs v' \<subseteq> {next_addr w ..< next_addr w'}"
proof -
  assume "structuredClone v w = (Inr v', w')"
  then obtain n' where c: "clone (next_addr w) v = Some (v', n')" and w': "next_addr w' = n'"
    by (auto simp: structuredClone_def split: option.splits)
  from clone_fresh(1)[OF c] w' show ?thesis by simp
qed

lemma getMovieById_fresh:
  assumes "fst (getMovieById i w) = Inr movie"
  shows "addrs movie \<subseteq> {next_addr w ..< next_addr (snd (getMovieById i w))}"
proof (cases i w rule: getMovieById_cases)
  case (failure msg)
  with assms show ?thesis by simp
next
  case absent
  with assms show ?thesis by simp
next
  case (uncloneable doc)
  with assms show ?thesis by simp
next
  case (present doc m n2)
  with assms fetched_fresh[OF present(3)] show ?thesis by simp
qed

lemma updateMovie_fresh:
  assumes "fst (updateMovie i movieData w) = Inr movie"
  shows "addrs movie \<subseteq> {next_addr w ..< next_addr (snd (updateMovie i movieData w))}"
proof (cases i w rule: getMovieById_cases)
  case (failure msg)
  with assms show ?thesis by (simp add: updateMovie_def)
next
  case absent
  with assms show ?thesis by (simp add: updateMovie_def)
next
  case (uncloneable doc)
  with assms show ?thesis by (simp add: updateMovie_def)
next
  case (present doc m n2)
  let ?w1 = "(log_call (GetDocumentById COLLECTION i) w)\<lparr>next_addr := n2\<rparr>"
  let ?merged = "merge_update movieData m"
  from present have u: "updateMovie i movieData w =
      (case updateDocument COLLECTION i ?merged ?w1 of
         (Inl e, w2) \<Rightarrow> (Inl e, w2)
       | (Inr u, w2) \<Rightarrow> structuredClone ?merged w2)"
    by (simp add: updateMovie_check_unreachable)
  obtain r w2 where d: "updateDocument COLLECTION i ?merged ?w1 = (r, w2)"
    by (cases "updateDocument COLLECTION i ?merged ?w1")
  have n2: "next_addr w2 = n2"
    using d by (auto simp: updateDocument_def log_call_def Let_def split: option.splits)
  from assms u d obtain w3 where s: "structuredClone ?merged w2 = (Inr movie, w3)"
    and w3: "snd (updateMovie i movieData w) = w3"
    by (cases r; cases "structuredClone ?merged w2") auto
  from structuredClone_fresh[OF s] n2 w3 clone_mono(1)[of "Suc _"] fetched_fresh[OF present(3)]
  have "addrs movie \<subseteq> {n2 ..< next_addr (snd (updateMovie i movieData w))}" by simp
  moreover have "next_addr w \<le> n2"
  proof -
    from present(3) have "clone (Suc (snd (decode_fields (client w) (next_addr w) (data_fields doc))))
        (JObj (snd (decode_fields (client w) (next_addr w) (data_fields doc)))
           (spread_into (fst (decode_fields (client w) (next_addr w) (data_fields doc)))
              [(''id'', JStr (doc_id doc))])) = Some (m, n2)"
      by (simp add: fetched_def case_prod_beta)
    from clone_mono(1)[OF this] decode_mono(3)[of "next_addr w" "client w" "data_fields doc"]
    show ?thesis by simp
  qed
  ultimately show ?thesis by auto
qed

lemma createMovie_fresh:
  assumes "fst (createMovie movieData w) = Inr movie"
  shows "addrs movie \<subseteq> {next_addr w ..< next_addr (snd (createMovie movieData w))}"
proof -
  let ?n = "next_addr w"
  let ?w2 = "w\<lparr>next_addr := Suc (Suc ?n)\<rparr>"
  let ?newMovie = "JObj (Suc ?n) (set_prop ''createdAt'' (JDate ?n (clock w)) (spread_into movieData []))"
  have c: "createMovie movieData w =
      (case createDocument COLLECTION ?newMovie ?w2 of
         (Inl e, w3) \<Rightarrow> (Inl e, w3)
       | (Inr movieId, w3) \<Rightarrow>
           structuredClone (JObj (next_addr w3) (spread_into (props_of ?newMovie) [(''id'', JStr movieId)]))
             (w3\<lparr>next_addr := Suc (next_addr w3)\<rparr>))"
    by (simp add: createMovie_def new_Date_def new_object_def split: prod.splits sum.splits)
  obtain r w3 where d: "createDocument COLLECTION ?newMovie ?w2 = (r, w3)"
    by (cases "createDocument COLLECTION ?newMovie ?w2")
  have n3: "next_addr w3 = Suc (Suc ?n)"
    using d by (auto simp: createDocument_def log_call_def Let_def split: option.splits)
  from assms c d obtain movieId w5 where
    s: "structuredClone (JObj (next_addr w3) (spread_into (props_of ?newMovie) [(''id'', JStr movieId)]))
          (w3\<lparr>next_addr := Suc (next_addr w3)\<rparr>) = (Inr movie, w5)"
    and w5: "snd (createMovie movieData w) = w5"
    by (cases r; cases "structuredClone (JObj (next_addr w3)
          (spread_into (props_of ?newMovie) [(''id'', JStr (projr r))]))
          (w3\<lparr>next_addr := Suc (next_addr w3)\<rparr>)") auto
  from structuredClone_fresh[OF s] n3 w5 show ?thesis by auto
qed

text \<open>
  The objects of \<^verbatim>\<open>getAllMovies\<close> are those that \<^verbatim>\<open>doc.data()\<close> builds and the new
  outer objects. When no document holds a reference they are all allocated during the
  call.
\<close>

lemma addrs_props_subset:
  "set ps \<subseteq> set qs \<Longrightarrow> addrs_props ps \<subseteq> addrs_props qs"
proof -
  have "addrs_props xs = (\<Union>kv \<in> set xs. addrs (snd kv))" for xs
    by (induction xs) auto
  then show "set ps \<subseteq> set qs \<Longrightarrow> addrs_props ps \<subseteq> addrs_props qs" by auto
qed

lemma addrs_props_Un: "addrs_props (ps @ qs) = addrs_props ps \<union> addrs_props qs"
  by (induction ps) auto

lemma addrs_spread_id:
  "addrs_props (spread_into ps [(''id'', JStr s)]) \<subseteq> addrs_props ps"
proof -
  have "set (spread_into ps [(''id'', JStr s)]) \<subseteq> set ([(''id'', JStr s)] @ ps)"
    using set_spread_into[of ps "[(''id'', JStr s)]"] by simp
  from addrs_props_subset[OF this] show ?thesis by (simp add: addrs_props_Un)
qed

lemma movie_of_doc_fresh:
  assumes "data_ref_free doc"
  shows "addrs (fst (movie_of_doc doc w)) \<subseteq> {next_addr w ..< next_addr (snd (movie_of_doc doc w))}"
proof -
  let ?d = "decode_fields (client w) (next_addr w) (data_fields doc)"
  from assms have "addrs_props (fst ?d) \<subseteq> {next_addr w ..< snd ?d}"
    by (simp add: data_ref_free_def decode_fresh(3))
  with addrs_spread_id[of "fst ?d" "doc_id doc"] decode_mono(3)[of "next_addr w" "client w" "data_fields doc"]
  show ?thesis by (auto simp: movie_of_doc_eq)
qed

lemma movie_of_doc_mono: "next_addr w \<le> next_addr (snd (movie_of_doc doc w))"
  using decode_mono(3)[of "next_addr w" "client w" "data_fields doc"]
  by (simp add: movie_of_doc_eq)

lemma docs_map_mono: "next_addr w \<le> next_addr (snd (docs_map docs w))"
proof (induction docs arbitrary: w)
  case Nil
  then show ?case by simp
next
  case (Cons doc docs)
  from movie_of_doc_mono[of w doc] Cons[of "snd (movie_of_doc doc w)"]
  show ?case by (simp add: case_prod_beta)
qed

lemma docs_map_fresh:
  assumes "\<forall>doc \<in> set docs. data_ref_free doc"
  shows "addrs_list (fst (docs_map docs w)) \<subseteq> {next_addr w ..< next_addr (snd (docs_map docs w))}"
  using assms
proof (induction docs arbitrary: w)
  case Nil
  then show ?case by simp
next
  case (Cons doc docs)
  let ?w1 = "snd (movie_of_doc doc w)"
  from Cons.prems have a1: "addrs (fst (movie_of_doc doc w)) \<subseteq> {next_addr w ..< next_addr ?w1}"
    by (simp add: movie_of_doc_fresh)
  from Cons.IH[of ?w1] Cons.prems
  have a2: "addrs_list (fst (docs_map docs ?w1)) \<subseteq> {next_addr ?w1 ..< next_addr (snd (docs_map docs ?w1))}"
    by simp
  from a1 a2 movie_of_doc_mono[of w doc] docs_map_mono[of ?w1 docs]
  show ?case by (fastforce simp: case_prod_beta)
qed

lemma getAllMovies_fresh_without_references:
  assumes "\<forall>doc \<in> set (collections w COLLECTION). data_ref_free doc"
    and "fst (getAllMovies w) = Inr movies"
  shows "addrs_list movies \<subseteq> {next_addr w ..< next_addr (snd (getAllMovies w))}"
proof (cases "fault w")
  case None
  with assms(2) docs_map_fresh[OF assms(1), of "log_call (GetDocuments COLLECTION) w"]
  show ?thesis
    by (auto simp: getAllMovies_def getDocuments_def case_prod_beta log_call_def)
next
  case (Some msg)
  with assms(2) show ?thesis by (simp add: getAllMovies_def getDocuments_def)
qed

text \<open>
  Claim C8: every operation that returns movies returns deep copies that share no object
  with an object held by the service or the store client.

  \<^verbatim>\<open>getAllMovies\<close> does not: it has no \<^verbatim>\<open>structuredClone\<close>, unlike \<^verbatim>\<open>getMovieById\<close>,
  \<^verbatim>\<open>createMovie\<close> and \<^verbatim>\<open>updateMovie\<close>, whose results consist of objects allocated
  during the call only (the three lemmas above). The spread makes a new outer object; the
  nested objects of a returned movie are those that \<^verbatim>\<open>doc.data()\<close> built. They are new
  (\<open>getAllMovies_fresh_without_references\<close>) except where the document holds a
  reference to another document: the \<^verbatim>\<open>DocumentReference\<close> is new, the Firestore
  instance it holds is the one of the client. On the second sample store the movie that
  \<^verbatim>\<open>getAllMovies\<close> returns has that instance, the objects at the addresses 0, 1 and 2
  allocated before the call, under its property \<^verbatim>\<open>studio\<close>; \<^verbatim>\<open>getMovieById\<close> returns no
  such object, it throws.
\<close>

theorem getAllMovies_returns_object_of_client:
  "collections world1 COLLECTION = [\<lparr>doc_id = ''m5'', doc_data = Some arrival_fields\<rparr>]
 \<and> client world1 = firestore_client
 \<and> addrs firestore_client = {0, 1, 2}
 \<and> next_addr world1 = 10
 \<and> fst (getAllMovies world1)
     = Inr [JObj 11 [(''id'', JStr ''m5''), (''title'', JStr ''Arrival''),
                     (''studio'', JDocRef 10 ''studios/s1'' firestore_client)]]
 \<and> fst (getMovieById ''m5'' world1) = Inl DataCloneError"
  by (simp add: run_defs)

end
